theory Spec2Isabelle
  imports Main "HOL-Library.Word"
begin

section \<open>Data model\<close>

text \<open>
  Go's \<open>int\<close> on the build target of the repository (GOARCH amd64) is a 64-bit
  two's complement integer: \<open>+\<close> wraps around and the comparisons are signed
  (\<open>\<le>s\<close>, \<open><s\<close>).
\<close>

type_synonym goint = "64 word"

text \<open>
  Points of the monotonic clock and durations, in nanoseconds (the unit of
  \<open>time.Duration\<close>).
\<close>

type_synonym nanos = nat

definition second :: nanos where
  "second = 1000000000"

definition minute :: nanos where
  "minute = 60 * second"

definition timeoutGetRequest :: nanos where
  "timeoutGetRequest = second * 10"

definition timeoutModifyNodeGroup :: nanos where
  "timeoutModifyNodeGroup = second * 20"

definition timeoutDeleteNode :: nanos where
  "timeoutDeleteNode = second * 20"

definition timeoutWaitNodeGroupState :: nanos where
  "timeoutWaitNodeGroupState = minute * 20"

definition nodeGroupMinSize :: goint where
  "nodeGroupMinSize = 1"

definition nodeGroupMaxSize :: goint where
  "nodeGroupMaxSize = 20"

text \<open>
  \<open>upcloud.KubernetesNodeState\<close> and \<open>upcloud.KubernetesNodeGroupState\<close> are
  string types of the vendored API package.
\<close>

type_synonym KubernetesNodeState = string
type_synonym KubernetesNodeGroupState = string

text \<open>
  Modelled from the spec: the lifecycle constants of the vendored API package
  (\<open>upcloud.KubernetesNodeStateRunning\<close>, \<open>...Terminating\<close>, \<open>...Pending\<close> and
  \<open>upcloud.KubernetesNodeGroupStateRunning\<close>), whose declarations are not among
  the sources; the spec calls them the running, terminating and pending states
  of a node and the \<open>Running\<close> state of a group.
\<close>

definition KubernetesNodeStateRunning :: KubernetesNodeState where
  "KubernetesNodeStateRunning = ''running''"

definition KubernetesNodeStateTerminating :: KubernetesNodeState where
  "KubernetesNodeStateTerminating = ''terminating''"

definition KubernetesNodeStatePending :: KubernetesNodeState where
  "KubernetesNodeStatePending = ''pending''"

definition KubernetesNodeGroupStateRunning :: KubernetesNodeGroupState where
  "KubernetesNodeGroupStateRunning = ''running''"

text \<open>
  \<open>cloudprovider.InstanceState\<close> is an integer enumeration; a status whose state
  was never assigned holds its zero value, here \<open>InstanceStateUnset\<close>.
\<close>

datatype InstanceState =
  InstanceStateUnset | InstanceRunning | InstanceCreating | InstanceDeleting

datatype InstanceErrorClass = OutOfResourcesErrorClass | OtherErrorClass

record InstanceErrorInfo =
  ErrorClass :: InstanceErrorClass
  ErrorCode :: string
  ErrorMessage :: string

record InstanceStatus =
  State_inst :: InstanceState
  ErrorInfo :: "InstanceErrorInfo option"

text \<open>\<open>cloudprovider.Instance\<close>; its \<open>Status\<close> is a pointer and may be nil.\<close>

record Instance =
  Id_inst :: string
  Status :: "InstanceStatus option"

record KubernetesNode =
  UUID :: string
  Name_node :: string
  State_node :: KubernetesNodeState

record KubernetesNodeGroup =
  Name :: string
  Count :: goint
  State :: KubernetesNodeGroupState

record KubernetesNodeGroupDetails = KubernetesNodeGroup +
  Nodes :: "KubernetesNode list"

text \<open>
  The fields of \<open>apiv1.Node\<close> that the provider reads: \<open>GetName()\<close> and
  \<open>Spec.ProviderID\<close>.
\<close>

record Node =
  GetName :: string
  ProviderID :: string

text \<open>
  Error values. An error of the remote API client is opaque (\<open>RemoteError\<close>);
  every other constructor is one \<open>fmt.Errorf\<close> of the sources, with the
  arguments of its format string:
  \<^item> \<open>ErrDelta delta\<close>: "failed to increase node group size, delta=%d", the
    message of both \<open>IncreaseSize\<close> and \<open>DecreaseTargetSize\<close>;
  \<^item> \<open>ErrIncrease current want max\<close>: "failed to increase node group size,
    current=%d want=%d max=%d";
  \<^item> \<open>ErrDecrease current want min\<close>: "failed to decrease node group size,
    current=%d want=%d min=%d";
  \<^item> \<open>ErrScale name err\<close>: "failed to scale node group %s, %w";
  \<^item> \<open>ErrFetch id err\<close>: "failed to fetch node group %s, %w";
  \<^item> \<open>ErrTimedOut id i\<close>: "node group %s state check (%d) timed out".
\<close>

datatype error =
    RemoteError string
  | ErrDelta goint
  | ErrIncrease goint goint goint
  | ErrDecrease goint goint goint
  | ErrScale string error
  | ErrFetch string error
  | ErrTimedOut string nat

section \<open>The remote API and its observable effects\<close>

text \<open>
  The interface \<open>upCloudService\<close>. The control plane is a state of type \<open>'r\<close>;
  a call takes the timeout of its context and the fields of its request and
  returns its result, the time it took and the control plane after it.
\<close>

record 'r upCloudService =
  GetKubernetesNodeGroups ::
    "nanos \<Rightarrow> string \<Rightarrow> 'r \<Rightarrow> (error + KubernetesNodeGroup list) \<times> nanos \<times> 'r"
  GetKubernetesNodeGroup ::
    "nanos \<Rightarrow> string \<Rightarrow> string \<Rightarrow> 'r \<Rightarrow> (error + KubernetesNodeGroup) \<times> nanos \<times> 'r"
  ModifyKubernetesNodeGroup ::
    "nanos \<Rightarrow> string \<Rightarrow> string \<Rightarrow> goint \<Rightarrow> 'r \<Rightarrow> (error + KubernetesNodeGroup) \<times> nanos \<times> 'r"
  DeleteKubernetesNodeGroupNode ::
    "nanos \<Rightarrow> string \<Rightarrow> string \<Rightarrow> string \<Rightarrow> 'r \<Rightarrow> error option \<times> nanos \<times> 'r"
  GetKubernetesNodeGroupDetails ::
    "nanos \<Rightarrow> string \<Rightarrow> string \<Rightarrow> 'r \<Rightarrow> (error + KubernetesNodeGroupDetails) \<times> nanos \<times> 'r"

text \<open>The world outside the process: the monotonic clock and the control plane.\<close>

record 'r world =
  clock :: nanos
  remote :: 'r

definition elapse :: "nanos \<Rightarrow> 'r \<Rightarrow> 'r world \<Rightarrow> 'r world" where
  "elapse d r w = \<lparr>clock = clock w + d, remote = r\<rparr>"

definition sleep :: "nanos \<Rightarrow> 'r world \<Rightarrow> 'r world" where
  "sleep d w = w\<lparr>clock := clock w + d\<rparr>"

text \<open>
  Every operation also returns the effects it had, in order: the remote calls
  it issued, each with its request and its result, and the errors it logged
  with \<open>klog.ErrorS\<close>. Informational logging is not part of the model.
\<close>

datatype event =
    EvGetGroups string "error + KubernetesNodeGroup list"
  | EvGetGroup string string "error + KubernetesNodeGroup"
  | EvModify string string goint "error + KubernetesNodeGroup"
  | EvDeleteNode string string string "error option"
  | EvGetDetails string string "error + KubernetesNodeGroupDetails"
  | EvLogError error

section \<open>State mapper\<close>

definition nodeStateToInstanceStatus :: "KubernetesNodeState \<Rightarrow> InstanceStatus" where
  "nodeStateToInstanceStatus nodeState =
     (if nodeState = KubernetesNodeStateRunning then
        \<lparr>State_inst = InstanceRunning, ErrorInfo = None\<rparr>
      else if nodeState = KubernetesNodeStateTerminating then
        \<lparr>State_inst = InstanceDeleting, ErrorInfo = None\<rparr>
      else if nodeState = KubernetesNodeStatePending then
        \<lparr>State_inst = InstanceCreating, ErrorInfo = None\<rparr>
      else
        \<lparr>State_inst = InstanceStateUnset,
         ErrorInfo = Some \<lparr>ErrorClass = OtherErrorClass, ErrorCode = nodeState,
                            ErrorMessage = ''''\<rparr>\<rparr>)"

text \<open>The mapper of the server-group based manager, over the state of a server.\<close>

definition serverStateToInstanceStatus :: "string \<Rightarrow> InstanceStatus" where
  "serverStateToInstanceStatus serverStatus =
     (if serverStatus = ''started'' then
        \<lparr>State_inst = InstanceRunning, ErrorInfo = None\<rparr>
      else if serverStatus = ''maintenance'' \<or> serverStatus = ''stopped'' then
        \<lparr>State_inst = InstanceDeleting, ErrorInfo = None\<rparr>
      else
        \<lparr>State_inst = InstanceStateUnset,
         ErrorInfo = Some \<lparr>ErrorClass = OtherErrorClass, ErrorCode = serverStatus,
                            ErrorMessage = ''''\<rparr>\<rparr>)"

section \<open>Node group controller\<close>

text \<open>
  \<open>upCloudNodeGroup\<close>. The service is a parameter of the operations instead of
  a field; the mutex is not modelled, an operation runs alone. The plan, taints
  and labels are read by \<open>TemplateNodeInfo\<close> only and are left out.
\<close>

record upCloudNodeGroup =
  clusterID :: string
  name :: string
  size_ng :: goint
  minSize :: goint
  maxSize :: goint
  nodes :: "Instance list"

definition Id_ng :: "upCloudNodeGroup \<Rightarrow> string" where
  "Id_ng u = clusterID u @ ''/'' @ name u"

definition MinSize :: "upCloudNodeGroup \<Rightarrow> goint" where
  "MinSize u = minSize u"

definition MaxSize :: "upCloudNodeGroup \<Rightarrow> goint" where
  "MaxSize u = maxSize u"

definition TargetSize :: "upCloudNodeGroup \<Rightarrow> goint \<times> error option" where
  "TargetSize u = (size_ng u, None)"

definition Nodes_ng :: "upCloudNodeGroup \<Rightarrow> Instance list \<times> error option" where
  "Nodes_ng u = (nodes u, None)"

text \<open>
  \<open>waitNodeGroupState\<close>: the loop runs while the clock is before the deadline.
  A read takes the time the service reports, the sleep three seconds, so the
  clock moves on and the loop ends. \<open>i\<close> counts the reads, from 1.
\<close>

function waitLoop ::
  "'r upCloudService \<Rightarrow> upCloudNodeGroup \<Rightarrow> KubernetesNodeGroupState \<Rightarrow> nanos \<Rightarrow> nat \<Rightarrow>
     'r world \<Rightarrow> (error + KubernetesNodeGroup) \<times> 'r world \<times> event list" where
  "waitLoop svc u state deadline i w =
     (if clock w < deadline then
        (case GetKubernetesNodeGroup svc timeoutGetRequest (clusterID u) (name u) (remote w) of
           (Inl err, d, r) \<Rightarrow>
             (Inl (ErrFetch (Id_ng u) err), elapse d r w,
              [EvGetGroup (clusterID u) (name u) (Inl err)])
         | (Inr g, d, r) \<Rightarrow>
             if State g = state then
               (Inr g, elapse d r w, [EvGetGroup (clusterID u) (name u) (Inr g)])
             else
               (case waitLoop svc u state deadline (i + 1)
                       (sleep (3 * second) (elapse d r w)) of
                  (res, w', evs) \<Rightarrow>
                    (res, w', EvGetGroup (clusterID u) (name u) (Inr g) # evs)))
      else (Inl (ErrTimedOut (Id_ng u) i), w, []))"
  by pat_completeness auto
termination
  by (relation "measure (\<lambda>(svc, u, state, deadline, i, w). deadline - clock w)")
     (auto simp: sleep_def elapse_def second_def)

declare waitLoop.simps [simp del]

definition waitNodeGroupState ::
  "'r upCloudService \<Rightarrow> upCloudNodeGroup \<Rightarrow> KubernetesNodeGroupState \<Rightarrow> nanos \<Rightarrow>
     'r world \<Rightarrow> (error + KubernetesNodeGroup) \<times> 'r world \<times> event list" where
  "waitNodeGroupState svc u state timeout w =
     waitLoop svc u state (clock w + timeout) 1 w"

definition scaleNodeGroup ::
  "'r upCloudService \<Rightarrow> upCloudNodeGroup \<Rightarrow> goint \<Rightarrow> 'r world \<Rightarrow>
     error option \<times> upCloudNodeGroup \<times> 'r world \<times> event list" where
  "scaleNodeGroup svc u sz w =
     (case ModifyKubernetesNodeGroup svc timeoutModifyNodeGroup (clusterID u) (name u) sz
             (remote w) of
        (Inl err, d, r) \<Rightarrow>
          (Some (ErrScale (name u) err), u, elapse d r w,
           [EvModify (clusterID u) (name u) sz (Inl err)])
      | (Inr m, d, r) \<Rightarrow>
          (case waitNodeGroupState svc u KubernetesNodeGroupStateRunning
                  timeoutWaitNodeGroupState (elapse d r w) of
             (Inl err, w', evs) \<Rightarrow>
               (Some err, u, w', EvModify (clusterID u) (name u) sz (Inr m) # evs)
           | (Inr nodeGroup, w', evs) \<Rightarrow>
               (None, u\<lparr>size_ng := Count nodeGroup\<rparr>, w',
                EvModify (clusterID u) (name u) sz (Inr m) # evs)))"

definition IncreaseSize ::
  "'r upCloudService \<Rightarrow> upCloudNodeGroup \<Rightarrow> goint \<Rightarrow> 'r world \<Rightarrow>
     error option \<times> upCloudNodeGroup \<times> 'r world \<times> event list" where
  "IncreaseSize svc u delta w =
     (if delta \<le>s 0 then (Some (ErrDelta delta), u, w, [])
      else
        (let sz = size_ng u + delta in
           if MaxSize u <s sz then (Some (ErrIncrease (size_ng u) sz (MaxSize u)), u, w, [])
           else scaleNodeGroup svc u sz w))"

definition DecreaseTargetSize ::
  "'r upCloudService \<Rightarrow> upCloudNodeGroup \<Rightarrow> goint \<Rightarrow> 'r world \<Rightarrow>
     error option \<times> upCloudNodeGroup \<times> 'r world \<times> event list" where
  "DecreaseTargetSize svc u delta w =
     (if 0 \<le>s delta then (Some (ErrDelta delta), u, w, [])
      else
        (let sz = size_ng u + delta in
           if sz <s MinSize u then (Some (ErrDecrease (size_ng u) sz (MinSize u)), u, w, [])
           else scaleNodeGroup svc u sz w))"

definition deleteNode ::
  "'r upCloudService \<Rightarrow> upCloudNodeGroup \<Rightarrow> string \<Rightarrow> 'r world \<Rightarrow>
     error option \<times> 'r world \<times> event list" where
  "deleteNode svc u nodeName w =
     (case DeleteKubernetesNodeGroupNode svc timeoutDeleteNode (clusterID u) (name u) nodeName
             (remote w) of
        (err, d, r) \<Rightarrow>
          (err, elapse d r w, [EvDeleteNode (clusterID u) (name u) nodeName err]))"

text \<open>
  \<open>DeleteNodes\<close>: the loop over the nodes, in the order of the slice. The
  elements are node references that are not nil.
\<close>

fun DeleteNodes ::
  "'r upCloudService \<Rightarrow> upCloudNodeGroup \<Rightarrow> Node list \<Rightarrow> 'r world \<Rightarrow>
     error option \<times> upCloudNodeGroup \<times> 'r world \<times> event list" where
  "DeleteNodes svc u [] w = (None, u, w, [])"
| "DeleteNodes svc u (n # ns) w =
     (case deleteNode svc u (GetName n) w of
        (Some err, w1, evs1) \<Rightarrow> (Some err, u, w1, evs1)
      | (None, w1, evs1) \<Rightarrow>
          (case waitNodeGroupState svc u KubernetesNodeGroupStateRunning
                  timeoutWaitNodeGroupState w1 of
             (Inl err, w2, evs2) \<Rightarrow> (Some err, u, w2, evs1 @ evs2)
           | (Inr nodeGroup, w2, evs2) \<Rightarrow>
               (case DeleteNodes svc (u\<lparr>size_ng := Count nodeGroup\<rparr>) ns w2 of
                  (res, u', w3, evs3) \<Rightarrow> (res, u', w3, evs1 @ evs2 @ evs3))))"

text \<open>
  The body of the loop of \<open>DeleteNodes\<close> before the assignment of the size: the
  delete of one node and the wait that follows it.
\<close>

definition deleteStep ::
  "'r upCloudService \<Rightarrow> upCloudNodeGroup \<Rightarrow> Node \<Rightarrow> 'r world \<Rightarrow>
     (error + KubernetesNodeGroup) \<times> 'r world \<times> event list" where
  "deleteStep svc u n w =
     (case deleteNode svc u (GetName n) w of
        (Some err, w1, evs1) \<Rightarrow> (Inl err, w1, evs1)
      | (None, w1, evs1) \<Rightarrow>
          (case waitNodeGroupState svc u KubernetesNodeGroupStateRunning
                  timeoutWaitNodeGroupState w1 of
             (res, w2, evs2) \<Rightarrow> (res, w2, evs1 @ evs2)))"

section \<open>Group registry\<close>

text \<open>\<open>Manager\<close>, with the service as a parameter and without its mutex.\<close>

record Manager =
  clusterID_m :: string
  nodeGroups :: "upCloudNodeGroup list"

text \<open>
  \<open>nodeGroupNodes\<close> returns the pair of the instances and the error, as the
  source does: no instance beside an error.
\<close>

definition nodeGroupNodes ::
  "'r upCloudService \<Rightarrow> string \<Rightarrow> string \<Rightarrow> 'r world \<Rightarrow>
     (Instance list \<times> error option) \<times> 'r world \<times> event list" where
  "nodeGroupNodes svc cid nm w =
     (case GetKubernetesNodeGroupDetails svc timeoutGetRequest cid nm (remote w) of
        (Inl err, d, r) \<Rightarrow> (([], Some err), elapse d r w, [EvGetDetails cid nm (Inl err)])
      | (Inr ng, d, r) \<Rightarrow>
          ((map (\<lambda>node. \<lparr>Id_inst = ''upcloud:////'' @ UUID node,
                          Status = Some (nodeStateToInstanceStatus (State_node node))\<rparr>)
                (Nodes ng), None),
           elapse d r w, [EvGetDetails cid nm (Inr ng)]))"

text \<open>
  The loop of \<open>Refresh\<close> over the listed groups; \<open>groups\<close> is the slice built so
  far.
\<close>

fun refreshLoop ::
  "'r upCloudService \<Rightarrow> Manager \<Rightarrow> upCloudNodeGroup list \<Rightarrow> KubernetesNodeGroup list \<Rightarrow>
     'r world \<Rightarrow> upCloudNodeGroup list \<times> 'r world \<times> event list" where
  "refreshLoop svc m groups [] w = (groups, w, [])"
| "refreshLoop svc m groups (g # gs) w =
     (case nodeGroupNodes svc (clusterID_m m) (Name g) w of
        ((ns, Some err), w1, evs1) \<Rightarrow>
          (case refreshLoop svc m groups gs w1 of
             (groups', w2, evs2) \<Rightarrow> (groups', w2, evs1 @ EvLogError err # evs2))
      | ((ns, None), w1, evs1) \<Rightarrow>
          (case refreshLoop svc m
                  (groups @ [\<lparr>clusterID = clusterID_m m, name = Name g, size_ng = Count g,
                               minSize = nodeGroupMinSize, maxSize = nodeGroupMaxSize,
                               nodes = ns\<rparr>])
                  gs w1 of
             (groups', w2, evs2) \<Rightarrow> (groups', w2, evs1 @ evs2)))"

definition Refresh ::
  "'r upCloudService \<Rightarrow> Manager \<Rightarrow> 'r world \<Rightarrow>
     error option \<times> Manager \<times> 'r world \<times> event list" where
  "Refresh svc m w =
     (case GetKubernetesNodeGroups svc timeoutGetRequest (clusterID_m m) (remote w) of
        (Inl err, d, r) \<Rightarrow>
          (Some err, m, elapse d r w, [EvGetGroups (clusterID_m m) (Inl err)])
      | (Inr upcloudNodeGroups, d, r) \<Rightarrow>
          (case refreshLoop svc m [] upcloudNodeGroups (elapse d r w) of
             (groups, w', evs) \<Rightarrow>
               (None, m\<lparr>nodeGroups := groups\<rparr>, w',
                EvGetGroups (clusterID_m m) (Inr upcloudNodeGroups) # evs)))"

section \<open>Cloud provider\<close>

record upCloudCloudProvider =
  manager :: Manager

text \<open>The inner loop of \<open>NodeGroupForNode\<close> over the instances of one group.\<close>

fun hasProviderID :: "Instance list \<Rightarrow> string \<Rightarrow> bool" where
  "hasProviderID [] providerID = False"
| "hasProviderID (n # ns) providerID =
     (if Id_inst n = providerID then True else hasProviderID ns providerID)"

fun groupForProviderID ::
  "upCloudNodeGroup list \<Rightarrow> string \<Rightarrow> upCloudNodeGroup option \<times> error option" where
  "groupForProviderID [] providerID = (None, None)"
| "groupForProviderID (grp # groups) providerID =
     (case Nodes_ng grp of
        (ns, Some err) \<Rightarrow> (None, Some err)
      | (ns, None) \<Rightarrow>
          if hasProviderID ns providerID then (Some grp, None)
          else groupForProviderID groups providerID)"

definition NodeGroupForNode ::
  "upCloudCloudProvider \<Rightarrow> Node \<Rightarrow> upCloudNodeGroup option \<times> error option" where
  "NodeGroupForNode u node =
     groupForProviderID (nodeGroups (manager u)) (ProviderID node)"

section \<open>Observations on the effects of an operation\<close>

text \<open>The node names of the single-node deletes issued, in order.\<close>

fun deleteRequests :: "event list \<Rightarrow> string list" where
  "deleteRequests [] = []"
| "deleteRequests (EvDeleteNode c n nodeName res # evs) = nodeName # deleteRequests evs"
| "deleteRequests (ev # evs) = deleteRequests evs"

text \<open>
  The effects of deleting the named nodes one at a time: for each name in turn
  one delete that succeeded, then reads that succeeded, all but the last one
  missing the \<open>Running\<close> state and the last one observing it. The flag tells
  whether a delete is waiting for its \<open>Running\<close> read.
\<close>

fun oneAtATime :: "string list \<Rightarrow> bool \<Rightarrow> event list \<Rightarrow> bool" where
  "oneAtATime [] False [] = True"
| "oneAtATime (nm # nms) False (EvDeleteNode c n nodeName None # evs) =
     (nm = nodeName \<and> oneAtATime nms True evs)"
| "oneAtATime nms True (EvGetGroup c n (Inr g) # evs) =
     (if State g = KubernetesNodeGroupStateRunning then oneAtATime nms False evs
      else oneAtATime nms True evs)"
| "oneAtATime nms waiting evs = False"

text \<open>A read of the group that succeeded and reported a state other than \<open>st\<close>.\<close>

fun isMiss :: "KubernetesNodeGroupState \<Rightarrow> event \<Rightarrow> bool" where
  "isMiss st (EvGetGroup c n (Inr g)) = (State g \<noteq> st)"
| "isMiss st ev = False"

text \<open>The count reported by a read that observed the \<open>Running\<close> state.\<close>

fun runningCount :: "event \<Rightarrow> goint option" where
  "runningCount (EvGetGroup c n (Inr g)) =
     (if State g = KubernetesNodeGroupStateRunning then Some (Count g) else None)"
| "runningCount ev = None"

definition runningCounts :: "event list \<Rightarrow> goint list" where
  "runningCounts evs = List.map_filter runningCount evs"

text \<open>The size invariant of a controller.\<close>

definition sizeWithinBounds :: "upCloudNodeGroup \<Rightarrow> bool" where
  "sizeWithinBounds u = (minSize u \<le>s size_ng u \<and> size_ng u \<le>s maxSize u)"

text \<open>The requests for the details of a group, each with its result, in order.\<close>

fun detailResults :: "event list \<Rightarrow> (string \<times> (error + KubernetesNodeGroupDetails)) list" where
  "detailResults [] = []"
| "detailResults (EvGetDetails c n res # evs) = (n, res) # detailResults evs"
| "detailResults (ev # evs) = detailResults evs"

text \<open>The errors of the failed requests for details, and the errors logged.\<close>

fun failedDetails :: "event list \<Rightarrow> error list" where
  "failedDetails [] = []"
| "failedDetails (EvGetDetails c n (Inl err) # evs) = err # failedDetails evs"
| "failedDetails (ev # evs) = failedDetails evs"

fun loggedErrors :: "event list \<Rightarrow> error list" where
  "loggedErrors [] = []"
| "loggedErrors (EvLogError err # evs) = err # loggedErrors evs"
| "loggedErrors (ev # evs) = loggedErrors evs"

text \<open>
  The collection that the spec describes for a refresh: for the listed groups
  and the results of fetching their nodes, in order, one controller for every
  group whose fetch succeeded, with the listed name and count, the default
  bounds and the instances of the fetched nodes; a group whose fetch failed is
  skipped.
\<close>

fun expectedGroups ::
  "string \<Rightarrow> KubernetesNodeGroup list \<Rightarrow> (error + KubernetesNodeGroupDetails) list \<Rightarrow>
     upCloudNodeGroup list" where
  "expectedGroups cid (g # gs) (Inr ng # rs) =
     \<lparr>clusterID = cid, name = Name g, size_ng = Count g, minSize = nodeGroupMinSize,
      maxSize = nodeGroupMaxSize,
      nodes = map (\<lambda>node. \<lparr>Id_inst = ''upcloud:////'' @ UUID node,
                            Status = Some (nodeStateToInstanceStatus (State_node node))\<rparr>)
                (Nodes ng)\<rparr> #
     expectedGroups cid gs rs"
| "expectedGroups cid (g # gs) (Inl err # rs) = expectedGroups cid gs rs"
| "expectedGroups cid gs rs = []"

section \<open>A scripted service\<close>

text \<open>
  An in-memory implementation of \<open>upCloudService\<close> for concrete runs. Its state
  is the list of the replies still to give, each with the time it takes; a
  request that the next reply does not answer fails at once.
\<close>

datatype reply =
    ReplyGroups nanos "error + KubernetesNodeGroup list"
  | ReplyGroup nanos "error + KubernetesNodeGroup"
  | ReplyDelete nanos "error option"
  | ReplyDetails nanos "error + KubernetesNodeGroupDetails"

definition unexpected :: error where
  "unexpected = RemoteError ''unexpected request''"

fun replyGroups :: "reply list \<Rightarrow> (error + KubernetesNodeGroup list) \<times> nanos \<times> reply list" where
  "replyGroups (ReplyGroups d res # rs) = (res, d, rs)"
| "replyGroups rs = (Inl unexpected, 0, rs)"

fun replyGroup :: "reply list \<Rightarrow> (error + KubernetesNodeGroup) \<times> nanos \<times> reply list" where
  "replyGroup (ReplyGroup d res # rs) = (res, d, rs)"
| "replyGroup rs = (Inl unexpected, 0, rs)"

fun replyDelete :: "reply list \<Rightarrow> error option \<times> nanos \<times> reply list" where
  "replyDelete (ReplyDelete d res # rs) = (res, d, rs)"
| "replyDelete rs = (Some unexpected, 0, rs)"

fun replyDetails :: "reply list \<Rightarrow> (error + KubernetesNodeGroupDetails) \<times> nanos \<times> reply list" where
  "replyDetails (ReplyDetails d res # rs) = (res, d, rs)"
| "replyDetails rs = (Inl unexpected, 0, rs)"

definition scripted :: "reply list upCloudService" where
  "scripted =
     \<lparr>GetKubernetesNodeGroups = (\<lambda>ctx c. replyGroups),
      GetKubernetesNodeGroup = (\<lambda>ctx c n. replyGroup),
      ModifyKubernetesNodeGroup = (\<lambda>ctx c n sz. replyGroup),
      DeleteKubernetesNodeGroupNode = (\<lambda>ctx c n nodeName. replyDelete),
      GetKubernetesNodeGroupDetails = (\<lambda>ctx c n. replyDetails)\<rparr>"

definition script :: "reply list \<Rightarrow> reply list world" where
  "script rs = \<lparr>clock = 0, remote = rs\<rparr>"

definition groupIs :: "goint \<Rightarrow> KubernetesNodeGroupState \<Rightarrow> KubernetesNodeGroup" where
  "groupIs c st = \<lparr>Name = ''group1'', Count = c, State = st\<rparr>"

definition group1 :: "goint \<Rightarrow> upCloudNodeGroup" where
  "group1 sz =
     \<lparr>clusterID = ''cluster'', name = ''group1'', size_ng = sz, minSize = nodeGroupMinSize,
      maxSize = nodeGroupMaxSize, nodes = []\<rparr>"

definition node :: "string \<Rightarrow> Node" where
  "node nm = \<lparr>GetName = nm, ProviderID = ''upcloud:////'' @ nm\<rparr>"

definition inst :: "string \<Rightarrow> Instance" where
  "inst i = \<lparr>Id_inst = ''upcloud:////'' @ i, Status = None\<rparr>"

definition oldManager :: Manager where
  "oldManager =
     \<lparr>clusterID_m = ''cluster'',
      nodeGroups = [(group1 3)\<lparr>nodes := [inst ''a'', inst ''b'']\<rparr>,
                    (group1 1)\<lparr>name := ''group2'', nodes := [inst ''c'']\<rparr>]\<rparr>"

definition provider :: upCloudCloudProvider where
  "provider = \<lparr>manager = oldManager\<rparr>"

definition down :: error where
  "down = RemoteError ''service unavailable''"

definition transient :: "nanos \<Rightarrow> reply" where
  "transient d = ReplyGroup d (Inr (groupIs 3 ''scaling-up''))"

definition settled :: "goint \<Rightarrow> reply" where
  "settled c = ReplyGroup second (Inr (groupIs c KubernetesNodeGroupStateRunning))"

definition failingDeletes :: "reply list" where
  "failingDeletes =
     [ReplyDelete second None, transient second, settled 2, ReplyDelete second (Some down),
      ReplyDelete second None, settled 0]"

definition threeNodes :: "Node list" where
  "threeNodes = [node ''n1'', node ''n2'', node ''n3'']"

definition failingEvents :: "event list" where
  "failingEvents =
     [EvDeleteNode ''cluster'' ''group1'' ''n1'' None,
      EvGetGroup ''cluster'' ''group1'' (Inr (groupIs 3 ''scaling-up'')),
      EvGetGroup ''cluster'' ''group1'' (Inr (groupIs 2 ''running'')),
      EvDeleteNode ''cluster'' ''group1'' ''n2'' (Some down)]"

definition afterFailure :: "reply list world" where
  "afterFailure = \<lparr>clock = 7 * second, remote = [ReplyDelete second None, settled 0]\<rparr>"

definition listedGroups :: "KubernetesNodeGroup list" where
  "listedGroups =
     [\<lparr>Name = ''group1'', Count = 2, State = ''running''\<rparr>,
      \<lparr>Name = ''group2'', Count = 1, State = ''running''\<rparr>,
      \<lparr>Name = ''group3'', Count = 0, State = ''scaling-up''\<rparr>]"

definition details1 :: KubernetesNodeGroupDetails where
  "details1 =
     \<lparr>Name = ''group1'', Count = 2, State = ''running'',
      Nodes = [\<lparr>UUID = ''u1'', Name_node = ''n1'', State_node = ''running''\<rparr>,
               \<lparr>UUID = ''u2'', Name_node = ''n2'', State_node = ''failed''\<rparr>]\<rparr>"

definition details3 :: KubernetesNodeGroupDetails where
  "details3 = \<lparr>Name = ''group3'', Count = 0, State = ''scaling-up'', Nodes = []\<rparr>"

definition refreshScript :: "reply list" where
  "refreshScript =
     [ReplyGroups second (Inr listedGroups), ReplyDetails second (Inr details1),
      ReplyDetails second (Inl down), ReplyDetails second (Inr details3)]"

definition refreshedGroups :: "upCloudNodeGroup list" where
  "refreshedGroups =
     [(group1 2)\<lparr>nodes :=
        [\<lparr>Id_inst = ''upcloud:////u1'',
          Status = Some \<lparr>State_inst = InstanceRunning, ErrorInfo = None\<rparr>\<rparr>,
         \<lparr>Id_inst = ''upcloud:////u2'',
          Status = Some \<lparr>State_inst = InstanceStateUnset,
                          ErrorInfo = Some \<lparr>ErrorClass = OtherErrorClass, ErrorCode = ''failed'',
                                             ErrorMessage = ''''\<rparr>\<rparr>\<rparr>]\<rparr>,
      (group1 0)\<lparr>name := ''group3''\<rparr>]"

definition refreshEvents :: "event list" where
  "refreshEvents =
     [EvGetGroups ''cluster'' (Inr listedGroups),
      EvGetDetails ''cluster'' ''group1'' (Inr details1),
      EvGetDetails ''cluster'' ''group2'' (Inl down),
      EvLogError down,
      EvGetDetails ''cluster'' ''group3'' (Inr details3)]"

section \<open>Properties\<close>

subsection \<open>State mapper\<close>

text \<open>
  C8. The state mapper returns an instance status for every remote node state:
  the running state maps to \<open>Running\<close>, the terminating state to \<open>Deleting\<close>, the
  pending state to \<open>Creating\<close>, and every other value to a status without a
  state whose error information has the class \<open>Other\<close> and, as its error code,
  the raw state string. The function has no failing branch.
\<close>

theorem nodeStateToInstanceStatus_mapping:
  "(s = KubernetesNodeStateRunning \<longrightarrow>
      nodeStateToInstanceStatus s = \<lparr>State_inst = InstanceRunning, ErrorInfo = None\<rparr>) \<and>
   (s = KubernetesNodeStateTerminating \<longrightarrow>
      nodeStateToInstanceStatus s = \<lparr>State_inst = InstanceDeleting, ErrorInfo = None\<rparr>) \<and>
   (s = KubernetesNodeStatePending \<longrightarrow>
      nodeStateToInstanceStatus s = \<lparr>State_inst = InstanceCreating, ErrorInfo = None\<rparr>) \<and>
   (s \<notin> {KubernetesNodeStateRunning, KubernetesNodeStateTerminating,
           KubernetesNodeStatePending} \<longrightarrow>
      nodeStateToInstanceStatus s =
        \<lparr>State_inst = InstanceStateUnset,
         ErrorInfo = Some \<lparr>ErrorClass = OtherErrorClass, ErrorCode = s,
                            ErrorMessage = ''''\<rparr>\<rparr>)"
  by (simp add: nodeStateToInstanceStatus_def KubernetesNodeStateRunning_def
      KubernetesNodeStateTerminating_def KubernetesNodeStatePending_def)

theorem nodeStateToInstanceStatus_mapping_witness:
  "nodeStateToInstanceStatus ''running'' = \<lparr>State_inst = InstanceRunning, ErrorInfo = None\<rparr> \<and>
   nodeStateToInstanceStatus ''terminating'' =
     \<lparr>State_inst = InstanceDeleting, ErrorInfo = None\<rparr> \<and>
   nodeStateToInstanceStatus ''pending'' = \<lparr>State_inst = InstanceCreating, ErrorInfo = None\<rparr> \<and>
   nodeStateToInstanceStatus ''failed'' =
     \<lparr>State_inst = InstanceStateUnset,
      ErrorInfo = Some \<lparr>ErrorClass = OtherErrorClass, ErrorCode = ''failed'',
                         ErrorMessage = ''''\<rparr>\<rparr>"
  using nodeStateToInstanceStatus_mapping [of "''running''"]
    nodeStateToInstanceStatus_mapping [of "''terminating''"]
    nodeStateToInstanceStatus_mapping [of "''pending''"]
    nodeStateToInstanceStatus_mapping [of "''failed''"]
  by (simp add: KubernetesNodeStateRunning_def KubernetesNodeStateTerminating_def
      KubernetesNodeStatePending_def)

text \<open>
  The mapper over server states has the same shape: two known outcomes and the
  error classification with the raw string for everything else.
\<close>

lemma serverStateToInstanceStatus_mapping:
  "serverStateToInstanceStatus s =
     (if s = ''started'' then \<lparr>State_inst = InstanceRunning, ErrorInfo = None\<rparr>
      else if s \<in> {''maintenance'', ''stopped''} then
        \<lparr>State_inst = InstanceDeleting, ErrorInfo = None\<rparr>
      else \<lparr>State_inst = InstanceStateUnset,
            ErrorInfo = Some \<lparr>ErrorClass = OtherErrorClass, ErrorCode = s,
                               ErrorMessage = ''''\<rparr>\<rparr>)"
  by (simp add: serverStateToInstanceStatus_def)

subsection \<open>Requests rejected before any remote effect\<close>




subsection \<open>Refresh when the listing fails\<close>

text \<open>
  C9. If the listing of the node groups fails, \<open>Refresh\<close> returns that error, the
  manager (and so its cached controller collection) is returned unchanged, and
  the listing is the only remote call.
\<close>

theorem Refresh_listing_failure_keeps_cache:
  "fst (GetKubernetesNodeGroups svc timeoutGetRequest (clusterID_m m) (remote w)) = Inl err \<Longrightarrow>
   fst (Refresh svc m w) = Some err \<and> fst (snd (Refresh svc m w)) = m \<and>
   snd (snd (snd (Refresh svc m w))) = [EvGetGroups (clusterID_m m) (Inl err)]"
  by (cases "GetKubernetesNodeGroups svc timeoutGetRequest (clusterID_m m) (remote w)")
     (simp add: Refresh_def)

theorem Refresh_listing_failure_keeps_cache_witness:
  "fst (Refresh scripted oldManager (script [ReplyGroups second (Inl down)])) = Some down \<and>
   nodeGroups (fst (snd (Refresh scripted oldManager (script [ReplyGroups second (Inl down)])))) =
     nodeGroups oldManager"
  using Refresh_listing_failure_keeps_cache
    [of scripted oldManager "script [ReplyGroups second (Inl down)]" down]
  by (simp add: scripted_def script_def)

subsection \<open>Deleting no node\<close>

text \<open>
  C10. \<open>DeleteNodes\<close> with an empty sequence of nodes returns no error, issues
  no remote call, and returns the controller (its cached size and its cached
  instances) and the world unchanged.
\<close>

theorem DeleteNodes_empty:
  "DeleteNodes svc u [] w = (None, u, w, [])"
  by simp

subsection \<open>Resolving a node to its group\<close>

lemma hasProviderID_iff: "hasProviderID ns p \<longleftrightarrow> p \<in> Id_inst ` set ns"
  by (induction ns) auto

lemma groupForProviderID_none:
  "\<forall>g \<in> set gs. p \<notin> Id_inst ` set (nodes g) \<Longrightarrow> groupForProviderID gs p = (None, None)"
  by (induction gs) (auto simp: Nodes_ng_def hasProviderID_iff)

lemma groupForProviderID_some:
  "\<exists>g \<in> set gs. p \<in> Id_inst ` set (nodes g) \<Longrightarrow>
   \<exists>g. groupForProviderID gs p = (Some g, None) \<and> g \<in> set gs \<and>
       p \<in> Id_inst ` set (nodes g)"
  by (induction gs) (auto simp: Nodes_ng_def hasProviderID_iff)

text \<open>
  C7. \<open>NodeGroupForNode\<close> scans the cached instances of the current controllers
  for the provider ID of the node. If no cached instance of any controller has
  that ID, the result is no group and no error; if some controller has it, the
  result is a controller of the collection whose cached instances contain the
  ID, and no error.
\<close>

theorem NodeGroupForNode_result:
  "((\<forall>g \<in> set (nodeGroups (manager p)). ProviderID n \<notin> Id_inst ` set (nodes g)) \<longrightarrow>
      NodeGroupForNode p n = (None, None)) \<and>
   ((\<exists>g \<in> set (nodeGroups (manager p)). ProviderID n \<in> Id_inst ` set (nodes g)) \<longrightarrow>
      (\<exists>g. NodeGroupForNode p n = (Some g, None) \<and> g \<in> set (nodeGroups (manager p)) \<and>
           ProviderID n \<in> Id_inst ` set (nodes g)))"
  using groupForProviderID_none groupForProviderID_some
  unfolding NodeGroupForNode_def by blast

theorem NodeGroupForNode_result_witness:
  "NodeGroupForNode provider (node ''x'') = (None, None) \<and>
   (\<exists>g. NodeGroupForNode provider (node ''c'') = (Some g, None) \<and> name g = ''group2'')"
  using NodeGroupForNode_result [of provider "node ''x''"]
    NodeGroupForNode_result [of provider "node ''c''"]
  by (simp add: provider_def oldManager_def node_def inst_def group1_def
      NodeGroupForNode_def Nodes_ng_def)

subsection \<open>Convergence polling\<close>

text \<open>
  The shape of every run of the polling loop: all reads but the last succeeded
  and missed the target state, and the last read decides the result. Without
  a deciding read the loop ran into its deadline.
\<close>

lemma waitLoop_shape:
  "waitLoop svc u st dl i w = (res, w', evs) \<Longrightarrow>
     list_all (isMiss st) (butlast evs) \<and>
     (case res of
        Inr g \<Rightarrow>
          evs \<noteq> [] \<and> last evs = EvGetGroup (clusterID u) (name u) (Inr g) \<and> State g = st
      | Inl e \<Rightarrow>
          (e = ErrTimedOut (Id_ng u) (i + length evs) \<and> list_all (isMiss st) evs \<and>
           dl \<le> clock w') \<or>
          (\<exists>e'. e = ErrFetch (Id_ng u) e' \<and> evs \<noteq> [] \<and>
                 last evs = EvGetGroup (clusterID u) (name u) (Inl e')))"
proof (induction svc u st dl i w arbitrary: res w' evs rule: waitLoop.induct)
  case (1 svc u state deadline i w)
  show ?case
  proof (cases "clock w < deadline")
    case False
    with "1.prems" show ?thesis
      by (auto simp: waitLoop.simps)
  next
    case True
    obtain r d rm where
      get: "GetKubernetesNodeGroup svc timeoutGetRequest (clusterID u) (name u) (remote w) =
              (r, d, rm)"
      by (metis prod_cases3)
    show ?thesis
    proof (cases r)
      case (Inl err)
      with True get "1.prems" show ?thesis
        by (auto simp: waitLoop.simps)
    next
      case (Inr g)
      show ?thesis
      proof (cases "State g = state")
        case True
        with \<open>clock w < deadline\<close> Inr get "1.prems" show ?thesis
          by (auto simp: waitLoop.simps)
      next
        case False
        obtain res2 w2 evs2 where
          rec: "waitLoop svc u state deadline (i + 1) (sleep (3 * second) (elapse d rm w)) =
                  (res2, w2, evs2)"
          by (metis prod_cases3)
        have ih: "list_all (isMiss state) (butlast evs2) \<and>
          (case res2 of
             Inr g \<Rightarrow>
               evs2 \<noteq> [] \<and> last evs2 = EvGetGroup (clusterID u) (name u) (Inr g) \<and>
               State g = state
           | Inl e \<Rightarrow>
               (e = ErrTimedOut (Id_ng u) (i + 1 + length evs2) \<and>
                list_all (isMiss state) evs2 \<and> deadline \<le> clock w2) \<or>
               (\<exists>e'. e = ErrFetch (Id_ng u) e' \<and> evs2 \<noteq> [] \<and>
                      last evs2 = EvGetGroup (clusterID u) (name u) (Inl e')))"
          using "1.IH" [OF True get [symmetric] _ _ False rec] Inr by simp
        have eq: "res = res2" "w' = w2"
          "evs = EvGetGroup (clusterID u) (name u) (Inr g) # evs2"
          using "1.prems" True get Inr False rec by (simp_all add: waitLoop.simps)
        show ?thesis
          using ih False unfolding eq by (cases res2) auto
      qed
    qed
  qed
qed

lemma waitLoop_failed_read_last:
  assumes "waitLoop svc u st dl i w = (res, w', evs)"
    and "k < length evs" and "evs ! k = EvGetGroup c n (Inl e)"
  shows "Suc k = length evs \<and> res = Inl (ErrFetch (Id_ng u) e)"
proof -
  from waitLoop_shape [OF assms(1)] have
    bl: "list_all (isMiss st) (butlast evs)" and
    cs: "(case res of
            Inr g \<Rightarrow>
              evs \<noteq> [] \<and> last evs = EvGetGroup (clusterID u) (name u) (Inr g) \<and> State g = st
          | Inl e \<Rightarrow>
              (e = ErrTimedOut (Id_ng u) (i + length evs) \<and> list_all (isMiss st) evs \<and>
               dl \<le> clock w') \<or>
              (\<exists>e'. e = ErrFetch (Id_ng u) e' \<and> evs \<noteq> [] \<and>
                     last evs = EvGetGroup (clusterID u) (name u) (Inl e')))"
    by auto
  have notmiss: "\<not> isMiss st (evs ! k)"
    using assms(3) by simp
  have "\<not> k < length (butlast evs)"
  proof
    assume inner: "k < length (butlast evs)"
    then have "isMiss st (butlast evs ! k)"
      using bl by (simp add: list_all_length)
    then show False
      using notmiss inner by (simp add: nth_butlast)
  qed
  then have k: "Suc k = length evs"
    using assms(2) by simp
  then have lst: "last evs = EvGetGroup c n (Inl e)"
    using assms(2,3)
    by (metis diff_Suc_1 last_conv_nth length_greater_0_conv zero_less_Suc)
  have nall: "\<not> list_all (isMiss st) evs"
    using notmiss assms(2) by (auto simp: list_all_length)
  show ?thesis
    using k cs lst nall by (cases res) auto
qed

lemma waitLoop_all_miss:
  assumes "waitLoop svc u st dl i w = (res, w', evs)" and "list_all (isMiss st) evs"
  shows "res = Inl (ErrTimedOut (Id_ng u) (i + length evs)) \<and> dl \<le> clock w'"
proof -
  from waitLoop_shape [OF assms(1)] have
    cs: "(case res of
            Inr g \<Rightarrow>
              evs \<noteq> [] \<and> last evs = EvGetGroup (clusterID u) (name u) (Inr g) \<and> State g = st
          | Inl e \<Rightarrow>
              (e = ErrTimedOut (Id_ng u) (i + length evs) \<and> list_all (isMiss st) evs \<and>
               dl \<le> clock w') \<or>
              (\<exists>e'. e = ErrFetch (Id_ng u) e' \<and> evs \<noteq> [] \<and>
                     last evs = EvGetGroup (clusterID u) (name u) (Inl e')))"
    by auto
  have "evs \<noteq> [] \<Longrightarrow> isMiss st (last evs)"
    using assms(2) by (simp add: list_all_iff)
  then show ?thesis
    using cs by (cases res) auto
qed

lemma waitNodeGroupState_success:
  assumes "waitNodeGroupState svc u st timeout w = (Inr g, w', evs)"
  shows "\<exists>pre. evs = pre @ [EvGetGroup (clusterID u) (name u) (Inr g)] \<and>
               list_all (isMiss st) pre \<and> State g = st"
proof -
  from assms have run: "waitLoop svc u st (clock w + timeout) 1 w = (Inr g, w', evs)"
    by (simp add: waitNodeGroupState_def)
  from waitLoop_shape [OF run] have
    "list_all (isMiss st) (butlast evs)" "evs \<noteq> []"
    "last evs = EvGetGroup (clusterID u) (name u) (Inr g)" "State g = st"
    by simp_all
  then show ?thesis
    by (metis append_butlast_last_id)
qed

lemmas run_defs = waitNodeGroupState_def waitLoop.simps scripted_def script_def group1_def
  groupIs_def KubernetesNodeGroupStateRunning_def second_def minute_def elapse_def sleep_def Id_ng_def
  transient_def settled_def down_def timeoutWaitNodeGroupState_def

text \<open>
  C4. In \<open>waitNodeGroupState\<close>, a read that fails is the last thing the routine
  does: no read follows it, and the routine returns the fetch error wrapping
  the error of that read. If every read the routine made succeeded and
  reported a state other than the target, the routine returns the timed-out
  error (with the deadline reached). When the wait of \<open>scaleNodeGroup\<close> or of a
  step of \<open>DeleteNodes\<close> returns an error, the caller returns it with the
  controller, and so its cached size, unchanged.
\<close>

theorem convergence_poll_failures:
  "(waitNodeGroupState svc u st timeout w = (res, w', evs) \<longrightarrow>
      (\<forall>k c g e. k < length evs \<and> evs ! k = EvGetGroup c g (Inl e) \<longrightarrow>
          Suc k = length evs \<and> res = Inl (ErrFetch (Id_ng u) e)) \<and>
      (list_all (isMiss st) evs \<longrightarrow>
          res = Inl (ErrTimedOut (Id_ng u) (Suc (length evs))) \<and> clock w + timeout \<le> clock w')) \<and>
   (ModifyKubernetesNodeGroup svc timeoutModifyNodeGroup (clusterID u) (name u) sz (remote w) =
      (Inr m, d, r) \<and>
    waitNodeGroupState svc u KubernetesNodeGroupStateRunning timeoutWaitNodeGroupState
      (elapse d r w) = (Inl err, ww, evw) \<longrightarrow>
      scaleNodeGroup svc u sz w =
        (Some err, u, ww, EvModify (clusterID u) (name u) sz (Inr m) # evw)) \<and>
   (deleteNode svc u (GetName n) w = (None, wd, evd) \<and>
    waitNodeGroupState svc u KubernetesNodeGroupStateRunning timeoutWaitNodeGroupState wd =
      (Inl err, ww, evw) \<longrightarrow>
      DeleteNodes svc u (n # ns) w = (Some err, u, ww, evd @ evw))"
proof (intro conjI impI allI)
  fix k c g e
  assume run: "waitNodeGroupState svc u st timeout w = (res, w', evs)"
    and "k < length evs \<and> evs ! k = EvGetGroup c g (Inl e)"
  then show "Suc k = length evs" "res = Inl (ErrFetch (Id_ng u) e)"
    using waitLoop_failed_read_last [of svc u st "clock w + timeout" 1 w res w' evs k c g e]
    by (simp_all add: waitNodeGroupState_def)
next
  assume run: "waitNodeGroupState svc u st timeout w = (res, w', evs)"
    and "list_all (isMiss st) evs"
  then show "res = Inl (ErrTimedOut (Id_ng u) (Suc (length evs)))" "clock w + timeout \<le> clock w'"
    using waitLoop_all_miss [of svc u st "clock w + timeout" 1 w res w' evs]
    by (simp_all add: waitNodeGroupState_def)
next
  assume "ModifyKubernetesNodeGroup svc timeoutModifyNodeGroup (clusterID u) (name u) sz (remote w) =
      (Inr m, d, r) \<and>
    waitNodeGroupState svc u KubernetesNodeGroupStateRunning timeoutWaitNodeGroupState
      (elapse d r w) = (Inl err, ww, evw)"
  then show "scaleNodeGroup svc u sz w =
        (Some err, u, ww, EvModify (clusterID u) (name u) sz (Inr m) # evw)"
    by (simp add: scaleNodeGroup_def)
next
  assume "deleteNode svc u (GetName n) w = (None, wd, evd) \<and>
    waitNodeGroupState svc u KubernetesNodeGroupStateRunning timeoutWaitNodeGroupState wd =
      (Inl err, ww, evw)"
  then show "DeleteNodes svc u (n # ns) w = (Some err, u, ww, evd @ evw)"
    by simp
qed

text \<open>
  Concrete runs against the scripted service. The replies of the last three
  take ten minutes each, so that the wait of twenty minutes runs out after two
  reads.
\<close>

lemma read_failure_run:
  "waitNodeGroupState scripted (group1 3) KubernetesNodeGroupStateRunning (5 * second)
     (script [transient second, ReplyGroup second (Inl down), settled 3]) =
   (Inl (ErrFetch ''cluster/group1'' down), \<lparr>clock = 5 * second, remote = [settled 3]\<rparr>,
    [EvGetGroup ''cluster'' ''group1'' (Inr (groupIs 3 ''scaling-up'')),
     EvGetGroup ''cluster'' ''group1'' (Inl down)])"
  by (simp add: run_defs)

lemma timeout_run:
  "waitNodeGroupState scripted (group1 3) KubernetesNodeGroupStateRunning (5 * second)
     (script [transient second, transient second, settled 3]) =
   (Inl (ErrTimedOut ''cluster/group1'' 3), \<lparr>clock = 8 * second, remote = [settled 3]\<rparr>,
    [EvGetGroup ''cluster'' ''group1'' (Inr (groupIs 3 ''scaling-up'')),
     EvGetGroup ''cluster'' ''group1'' (Inr (groupIs 3 ''scaling-up''))])"
  by (simp add: run_defs)

lemma slow_run:
  "waitNodeGroupState scripted (group1 3) KubernetesNodeGroupStateRunning timeoutWaitNodeGroupState
     \<lparr>clock = second, remote = [transient (10 * minute), transient (10 * minute), settled 4]\<rparr> =
   (Inl (ErrTimedOut ''cluster/group1'' 3), \<lparr>clock = 1207 * second, remote = [settled 4]\<rparr>,
    [EvGetGroup ''cluster'' ''group1'' (Inr (groupIs 3 ''scaling-up'')),
     EvGetGroup ''cluster'' ''group1'' (Inr (groupIs 3 ''scaling-up''))])"
  by (simp add: run_defs)


lemma slow_scale_run:
  "ModifyKubernetesNodeGroup scripted timeoutModifyNodeGroup (clusterID (group1 3)) (name (group1 3)) 4
     (remote (script [transient second, transient (10 * minute), transient (10 * minute), settled 4])) =
   (Inr (groupIs 3 ''scaling-up''), second, [transient (10 * minute), transient (10 * minute), settled 4])"
  by (simp add: scripted_def script_def transient_def)

lemma slow_delete_run:
  "deleteNode scripted (group1 3) (GetName (node ''n1''))
     (script [ReplyDelete second None, transient (10 * minute), transient (10 * minute), settled 2]) =
   (None, \<lparr>clock = second, remote = [transient (10 * minute), transient (10 * minute), settled 2]\<rparr>,
    [EvDeleteNode ''cluster'' ''group1'' ''n1'' None])"
  by (simp add: deleteNode_def scripted_def script_def elapse_def node_def group1_def)

lemma slow_run2:
  "waitNodeGroupState scripted (group1 3) KubernetesNodeGroupStateRunning timeoutWaitNodeGroupState
     \<lparr>clock = second, remote = [transient (10 * minute), transient (10 * minute), settled 2]\<rparr> =
   (Inl (ErrTimedOut ''cluster/group1'' 3), \<lparr>clock = 1207 * second, remote = [settled 2]\<rparr>,
    [EvGetGroup ''cluster'' ''group1'' (Inr (groupIs 3 ''scaling-up'')),
     EvGetGroup ''cluster'' ''group1'' (Inr (groupIs 3 ''scaling-up''))])"
  by (simp add: run_defs)

theorem convergence_poll_failures_witness:
  "fst (waitNodeGroupState scripted (group1 3) KubernetesNodeGroupStateRunning (5 * second)
          (script [transient second, ReplyGroup second (Inl down), settled 3])) =
     Inl (ErrFetch (Id_ng (group1 3)) down) \<and>
   length (snd (snd (waitNodeGroupState scripted (group1 3) KubernetesNodeGroupStateRunning
          (5 * second) (script [transient second, ReplyGroup second (Inl down), settled 3])))) = 2 \<and>
   fst (waitNodeGroupState scripted (group1 3) KubernetesNodeGroupStateRunning (5 * second)
          (script [transient second, transient second, settled 3])) =
     Inl (ErrTimedOut (Id_ng (group1 3)) 3) \<and>
   fst (scaleNodeGroup scripted (group1 3) 4
          (script [transient second, transient (10 * minute), transient (10 * minute), settled 4])) =
     Some (ErrTimedOut ''cluster/group1'' 3) \<and>
   fst (snd (scaleNodeGroup scripted (group1 3) 4
          (script [transient second, transient (10 * minute), transient (10 * minute), settled 4]))) =
     group1 3 \<and>
   fst (DeleteNodes scripted (group1 3) [node ''n1'']
          (script [ReplyDelete second None, transient (10 * minute), transient (10 * minute),
                   settled 2])) =
     Some (ErrTimedOut ''cluster/group1'' 3) \<and>
   fst (snd (DeleteNodes scripted (group1 3) [node ''n1'']
          (script [ReplyDelete second None, transient (10 * minute), transient (10 * minute),
                   settled 2]))) =
     group1 3"
proof -
  have failed: "Suc 1 = length [EvGetGroup ''cluster'' ''group1'' (Inr (groupIs 3 ''scaling-up'')),
       EvGetGroup ''cluster'' ''group1'' (Inl down)] \<and>
     Inl (ErrFetch ''cluster/group1'' down) = Inl (ErrFetch (Id_ng (group1 3)) down)"
    using convergence_poll_failures
      [THEN conjunct1, THEN mp, OF read_failure_run, THEN conjunct1, rule_format,
       of 1 "''cluster''" "''group1''" down]
    by simp
  have timed: "Inl (ErrTimedOut ''cluster/group1'' 3) = Inl (ErrTimedOut (Id_ng (group1 3)) 3)"
    using convergence_poll_failures
      [THEN conjunct1, THEN mp, OF timeout_run, THEN conjunct2]
    by (simp add: groupIs_def KubernetesNodeGroupStateRunning_def)
  have scale: "scaleNodeGroup scripted (group1 3) 4
       (script [transient second, transient (10 * minute), transient (10 * minute), settled 4]) =
     (Some (ErrTimedOut ''cluster/group1'' 3), group1 3, \<lparr>clock = 1207 * second, remote = [settled 4]\<rparr>,
      EvModify (clusterID (group1 3)) (name (group1 3)) 4 (Inr (groupIs 3 ''scaling-up'')) #
      [EvGetGroup ''cluster'' ''group1'' (Inr (groupIs 3 ''scaling-up'')),
       EvGetGroup ''cluster'' ''group1'' (Inr (groupIs 3 ''scaling-up''))])"
    using convergence_poll_failures
      [THEN conjunct2, THEN conjunct1, THEN mp, OF conjI, OF slow_scale_run]
      slow_run
    by (simp add: elapse_def script_def)
  have del: "DeleteNodes scripted (group1 3) [node ''n1'']
       (script [ReplyDelete second None, transient (10 * minute), transient (10 * minute),
                settled 2]) =
     (Some (ErrTimedOut ''cluster/group1'' 3), group1 3, \<lparr>clock = 1207 * second, remote = [settled 2]\<rparr>,
      [EvDeleteNode ''cluster'' ''group1'' ''n1'' None] @
      [EvGetGroup ''cluster'' ''group1'' (Inr (groupIs 3 ''scaling-up'')),
       EvGetGroup ''cluster'' ''group1'' (Inr (groupIs 3 ''scaling-up''))])"
    using convergence_poll_failures
      [THEN conjunct2, THEN conjunct2, THEN mp, OF conjI, OF slow_delete_run slow_run2]
    by simp
  show ?thesis
    using failed timed scale del read_failure_run timeout_run by simp
qed

subsection \<open>Scaling\<close>

lemma scaleNodeGroup_success:
  assumes "scaleNodeGroup svc u sz w = (None, u', w', evs)"
  shows "\<exists>m g pre. evs = EvModify (clusterID u) (name u) sz (Inr m) # pre @
                        [EvGetGroup (clusterID u) (name u) (Inr g)] \<and>
           list_all (isMiss KubernetesNodeGroupStateRunning) pre \<and>
           State g = KubernetesNodeGroupStateRunning \<and> u' = u\<lparr>size_ng := Count g\<rparr>"
proof -
  obtain rm d r where md: "ModifyKubernetesNodeGroup svc timeoutModifyNodeGroup (clusterID u) (name u) sz (remote w) = (rm, d, r)"
    by (metis prod_cases3)
  obtain rw ww evw where wt: "waitNodeGroupState svc u KubernetesNodeGroupStateRunning timeoutWaitNodeGroupState (elapse d r w) = (rw, ww, evw)"
    by (metis prod_cases3)
  from assms md obtain m where m: "rm = Inr m"
    by (cases rm) (auto simp: scaleNodeGroup_def)
  from assms md m wt obtain g where g: "rw = Inr g"
    by (cases rw) (auto simp: scaleNodeGroup_def)
  from assms md m wt g have res: "u' = u\<lparr>size_ng := Count g\<rparr>" "evs = EvModify (clusterID u) (name u) sz (Inr m) # evw"
    by (auto simp: scaleNodeGroup_def)
  from waitNodeGroupState_success [OF wt [unfolded g]] res show ?thesis
    by auto
qed

text \<open>
  C3. After a successful \<open>IncreaseSize\<close> or \<open>DecreaseTargetSize\<close> the effects are
  the modify request for \<open>size + delta\<close>, reads that missed the \<open>Running\<close> state,
  and a last read that observed \<open>Running\<close>; \<open>TargetSize\<close> returns the count that
  this last read reported. That count can differ from the size requested:
  there is a run of \<open>IncreaseSize\<close> that succeeds and caches another size than
  \<open>size + delta\<close>.
\<close>

theorem scale_success_caches_remote_count:
  "((IncreaseSize svc u delta w = (None, u', w', evs) \<or>
     DecreaseTargetSize svc u delta w = (None, u', w', evs)) \<longrightarrow>
      (\<exists>m g pre.
          evs = EvModify (clusterID u) (name u) (size_ng u + delta) (Inr m) # pre @
                  [EvGetGroup (clusterID u) (name u) (Inr g)] \<and>
          list_all (isMiss KubernetesNodeGroupStateRunning) pre \<and>
          State g = KubernetesNodeGroupStateRunning \<and>
          TargetSize u' = (Count g, None))) \<and>
   (\<exists>v k x. fst (IncreaseSize scripted v k x) = None \<and>
        fst (TargetSize (fst (snd (IncreaseSize scripted v k x)))) \<noteq> size_ng v + k)"
proof (intro conjI impI)
  assume "IncreaseSize svc u delta w = (None, u', w', evs) \<or>
     DecreaseTargetSize svc u delta w = (None, u', w', evs)"
  then have "scaleNodeGroup svc u (size_ng u + delta) w = (None, u', w', evs)"
    by (auto simp: IncreaseSize_def DecreaseTargetSize_def Let_def split: if_splits)
  from scaleNodeGroup_success [OF this] show "\<exists>m g pre.
          evs = EvModify (clusterID u) (name u) (size_ng u + delta) (Inr m) # pre @
                  [EvGetGroup (clusterID u) (name u) (Inr g)] \<and>
          list_all (isMiss KubernetesNodeGroupStateRunning) pre \<and>
          State g = KubernetesNodeGroupStateRunning \<and>
          TargetSize u' = (Count g, None)"
    by (auto simp: TargetSize_def)
next
  have "fst (IncreaseSize scripted (group1 1) 2 (script [transient second, settled 2])) = None \<and>
        fst (TargetSize (fst (snd (IncreaseSize scripted (group1 1) 2 (script [transient second, settled 2]))))) \<noteq> size_ng (group1 1) + 2"
    by (simp add: IncreaseSize_def scaleNodeGroup_def TargetSize_def MaxSize_def nodeGroupMaxSize_def nodeGroupMinSize_def timeoutModifyNodeGroup_def word_sless_alt word_sle_eq run_defs)
  then show "\<exists>v k x. fst (IncreaseSize scripted v k x) = None \<and>
        fst (TargetSize (fst (snd (IncreaseSize scripted v k x)))) \<noteq> size_ng v + k"
    by blast
qed

lemma increase_run:
  "IncreaseSize scripted (group1 1) 1 (script [transient second, transient second, settled 2]) =
   (None, group1 2, \<lparr>clock = 6 * second, remote = []\<rparr>,
    [EvModify ''cluster'' ''group1'' 2 (Inr (groupIs 3 ''scaling-up'')),
     EvGetGroup ''cluster'' ''group1'' (Inr (groupIs 3 ''scaling-up'')),
     EvGetGroup ''cluster'' ''group1'' (Inr (groupIs 2 ''running''))])"
  by (simp add: IncreaseSize_def scaleNodeGroup_def TargetSize_def MaxSize_def nodeGroupMaxSize_def nodeGroupMinSize_def timeoutModifyNodeGroup_def word_sless_alt word_sle_eq run_defs)

lemma decrease_run:
  "DecreaseTargetSize scripted (group1 3) (- 1) (script [transient second, settled 2]) =
   (None, group1 2, \<lparr>clock = 2 * second, remote = []\<rparr>,
    [EvModify ''cluster'' ''group1'' 2 (Inr (groupIs 3 ''scaling-up'')),
     EvGetGroup ''cluster'' ''group1'' (Inr (groupIs 2 ''running''))])"
  by (simp add: DecreaseTargetSize_def scaleNodeGroup_def TargetSize_def MinSize_def nodeGroupMaxSize_def nodeGroupMinSize_def timeoutModifyNodeGroup_def word_sless_alt word_sle_eq run_defs)

theorem scale_success_caches_remote_count_witness:
  "IncreaseSize scripted (group1 1) 1 (script [transient second, transient second, settled 2]) =
     (None, group1 2, \<lparr>clock = 6 * second, remote = []\<rparr>,
      [EvModify ''cluster'' ''group1'' 2 (Inr (groupIs 3 ''scaling-up'')),
       EvGetGroup ''cluster'' ''group1'' (Inr (groupIs 3 ''scaling-up'')),
       EvGetGroup ''cluster'' ''group1'' (Inr (groupIs 2 ''running''))]) \<and>
   TargetSize (group1 2) = (Count (groupIs 2 ''running''), None) \<and>
   fst (DecreaseTargetSize scripted (group1 3) (- 1) (script [transient second, settled 2])) = None \<and>
   TargetSize (fst (snd (DecreaseTargetSize scripted (group1 3) (- 1)
      (script [transient second, settled 2])))) = (2, None)"
  using scale_success_caches_remote_count [THEN conjunct1, THEN mp, OF disjI1, OF increase_run]
    scale_success_caches_remote_count [THEN conjunct1, THEN mp, OF disjI2, OF decrease_run]
    increase_run decrease_run
  by (auto simp: TargetSize_def groupIs_def group1_def)

subsection \<open>Deleting nodes\<close>

lemma deleteNode_events:
  "deleteNode svc u nm w = (res, w', evs) \<Longrightarrow> evs = [EvDeleteNode (clusterID u) (name u) nm res]"
  by (auto simp: deleteNode_def split: prod.splits)

lemma isMiss_deleteRequests: "list_all (isMiss st) evs \<Longrightarrow> deleteRequests evs = []"
  by (induction evs rule: deleteRequests.induct) auto

lemma deleteRequests_append: "deleteRequests (xs @ ys) = deleteRequests xs @ deleteRequests ys"
  by (induction xs rule: deleteRequests.induct) auto

lemma deleteRequests_reads:
  assumes "list_all (isMiss st) (butlast evs)" and "evs \<noteq> []" and "last evs = EvGetGroup c n r"
  shows "deleteRequests evs = []"
proof -
  have "evs = butlast evs @ [EvGetGroup c n r]"
    using assms(2,3) append_butlast_last_id [of evs] by simp
  then have "deleteRequests evs = deleteRequests (butlast evs) @ deleteRequests [EvGetGroup c n r]"
    using deleteRequests_append [of "butlast evs" "[EvGetGroup c n r]"] by simp
  then show ?thesis
    using isMiss_deleteRequests [OF assms(1)] by simp
qed

lemma waitNodeGroupState_no_deletes:
  assumes "waitNodeGroupState svc u st timeout w = (res, w', evs)"
  shows "deleteRequests evs = []"
proof -
  from assms have run: "waitLoop svc u st (clock w + timeout) 1 w = (res, w', evs)"
    by (simp add: waitNodeGroupState_def)
  note shape = waitLoop_shape [OF run]
  show ?thesis
  proof (cases res)
    case (Inr g)
    with shape show ?thesis
      using deleteRequests_reads [of st evs "clusterID u" "name u" "Inr g"] by simp
  next
    case (Inl e)
    with shape have "list_all (isMiss st) evs \<or>
        (\<exists>e'. evs \<noteq> [] \<and> last evs = EvGetGroup (clusterID u) (name u) (Inl e'))"
      by auto
    then show ?thesis
    proof
      assume "list_all (isMiss st) evs"
      then show ?thesis by (rule isMiss_deleteRequests)
    next
      assume "\<exists>e'. evs \<noteq> [] \<and> last evs = EvGetGroup (clusterID u) (name u) (Inl e')"
      then obtain e' where "evs \<noteq> []" "last evs = EvGetGroup (clusterID u) (name u) (Inl e')"
        by blast
      with shape show ?thesis
        using deleteRequests_reads [of st evs "clusterID u" "name u" "Inl e'"] by simp
    qed
  qed
qed

lemma DeleteNodes_Cons:
  "DeleteNodes svc u (n # ns) w =
     (case deleteStep svc u n w of
        (Inl err, w1, evs1) \<Rightarrow> (Some err, u, w1, evs1)
      | (Inr g, w1, evs1) \<Rightarrow>
          (case DeleteNodes svc (u\<lparr>size_ng := Count g\<rparr>) ns w1 of
             (res, u', w2, evs2) \<Rightarrow> (res, u', w2, evs1 @ evs2)))"
  by (simp add: deleteStep_def split: prod.splits option.splits sum.splits)

lemma deleteStep_events:
  assumes "deleteStep svc u n w = (res, w', evs)"
  shows "deleteRequests evs = [GetName n] \<and>
         (\<forall>g. res = Inr g \<longrightarrow>
            (\<exists>pre. evs = pre @ [EvGetGroup (clusterID u) (name u) (Inr g)] \<and>
                   State g = KubernetesNodeGroupStateRunning))"
proof -
  obtain rd wd evd where d: "deleteNode svc u (GetName n) w = (rd, wd, evd)"
    by (metis prod_cases3)
  note evd = deleteNode_events [OF d]
  show ?thesis
  proof (cases rd)
    case (Some err)
    with assms d evd show ?thesis by (auto simp: deleteStep_def)
  next
    case None
    obtain rw ww evw where wt: "waitNodeGroupState svc u KubernetesNodeGroupStateRunning
        timeoutWaitNodeGroupState wd = (rw, ww, evw)"
      by (metis prod_cases3)
    from assms d None wt have eq: "res = rw" "w' = ww" "evs = evd @ evw"
      by (simp_all add: deleteStep_def)
    have dr: "deleteRequests evs = [GetName n]"
      using eq evd waitNodeGroupState_no_deletes [OF wt] by (simp add: deleteRequests_append)
    have "\<exists>pre. evs = pre @ [EvGetGroup (clusterID u) (name u) (Inr g)] \<and>
                   State g = KubernetesNodeGroupStateRunning" if "res = Inr g" for g
    proof -
      from that eq wt have "waitNodeGroupState svc u KubernetesNodeGroupStateRunning
        timeoutWaitNodeGroupState wd = (Inr g, ww, evw)" by simp
      from waitNodeGroupState_success [OF this] obtain pre where
        "evw = pre @ [EvGetGroup (clusterID u) (name u) (Inr g)]" "State g = KubernetesNodeGroupStateRunning"
        by blast
      then have "evs = (evd @ pre) @ [EvGetGroup (clusterID u) (name u) (Inr g)]" using eq by simp
      then show ?thesis using \<open>State g = KubernetesNodeGroupStateRunning\<close> by blast
    qed
    then show ?thesis using dr by blast
  qed
qed

lemma DeleteNodes_append:
  "DeleteNodes svc u (xs @ ys) w =
     (case DeleteNodes svc u xs w of
        (Some e, u1, w1, ev1) \<Rightarrow> (Some e, u1, w1, ev1)
      | (None, u1, w1, ev1) \<Rightarrow>
          (case DeleteNodes svc u1 ys w1 of (r, u2, w2, ev2) \<Rightarrow> (r, u2, w2, ev1 @ ev2)))"
proof (induction xs arbitrary: u w)
  case Nil
  show ?case by (simp split: prod.splits)
next
  case (Cons x xs)
  obtain r1 w1 e1 where st: "deleteStep svc u x w = (r1, w1, e1)" by (metis prod_cases3)
  show ?case
  proof (cases r1)
    case (Inl err)
    with st show ?thesis unfolding append_Cons DeleteNodes_Cons by simp
  next
    case (Inr g)
    obtain r2 u2 w2 e2 where rest: "DeleteNodes svc (u\<lparr>size_ng := Count g\<rparr>) xs w1 = (r2, u2, w2, e2)"
      by (metis prod_cases4)
    show ?thesis
      unfolding append_Cons DeleteNodes_Cons
      using st Inr rest Cons.IH [of "u\<lparr>size_ng := Count g\<rparr>" w1]
      by (cases r2) (auto split: prod.splits)
  qed
qed


lemma DeleteNodes_success:
  "DeleteNodes svc u xs w = (None, u1, w1, ev1) \<Longrightarrow>
     deleteRequests ev1 = map GetName xs \<and>
     (xs = [] \<longrightarrow> u1 = u \<and> w1 = w \<and> ev1 = []) \<and>
     (xs \<noteq> [] \<longrightarrow>
        (\<exists>pre g. ev1 = pre @ [EvGetGroup (clusterID u) (name u) (Inr g)] \<and>
                 State g = KubernetesNodeGroupStateRunning \<and> u1 = u\<lparr>size_ng := Count g\<rparr>))"
proof (induction xs arbitrary: u w u1 w1 ev1)
  case Nil
  then show ?case by simp
next
  case (Cons x xs)
  obtain r0 w0 e0 where st: "deleteStep svc u x w = (r0, w0, e0)"
    by (metis prod_cases3)
  from Cons.prems st obtain g0 where g0: "r0 = Inr g0"
    unfolding DeleteNodes_Cons by (cases r0) auto
  obtain r2 u2 w2 e2 where
    rest: "DeleteNodes svc (u\<lparr>size_ng := Count g0\<rparr>) xs w0 = (r2, u2, w2, e2)"
    by (metis prod_cases4)
  from Cons.prems st g0 rest have eq: "r2 = None" "u2 = u1" "w2 = w1" "ev1 = e0 @ e2"
    unfolding DeleteNodes_Cons by simp_all
  note ih = Cons.IH [OF rest [unfolded eq(1)]]
  from deleteStep_events [OF st] g0 obtain pre0 where
    e0: "deleteRequests e0 = [GetName x]"
      "e0 = pre0 @ [EvGetGroup (clusterID u) (name u) (Inr g0)]"
      "State g0 = KubernetesNodeGroupStateRunning"
    by blast
  have dr: "deleteRequests ev1 = map GetName (x # xs)"
    using eq e0(1) ih by (simp add: deleteRequests_append)
  have "\<exists>pre g. ev1 = pre @ [EvGetGroup (clusterID u) (name u) (Inr g)] \<and>
          State g = KubernetesNodeGroupStateRunning \<and> u1 = u\<lparr>size_ng := Count g\<rparr>"
  proof (cases "xs = []")
    case True
    with ih eq e0 show ?thesis by auto
  next
    case False
    with ih obtain pre g where
      "e2 = pre @ [EvGetGroup (clusterID u) (name u) (Inr g)]"
      "State g = KubernetesNodeGroupStateRunning"
      "u2 = u\<lparr>size_ng := Count g\<rparr>"
      by auto
    then have "ev1 = (e0 @ pre) @ [EvGetGroup (clusterID u) (name u) (Inr g)]"
      "u1 = u\<lparr>size_ng := Count g\<rparr>"
      using eq by simp_all
    then show ?thesis
      using \<open>State g = KubernetesNodeGroupStateRunning\<close> by blast
  qed
  then show ?case using dr by simp
qed

lemma DeleteNodes_stop:
  "DeleteNodes svc u ns w = (res, u', w', evs) \<Longrightarrow>
     \<exists>k wk evk rest. k \<le> length ns \<and>
       DeleteNodes svc u (take k ns) w = (None, u', wk, evk) \<and> evs = evk @ rest \<and>
       (res = None \<longrightarrow> k = length ns \<and> rest = [] \<and> w' = wk) \<and>
       (\<forall>e. res = Some e \<longrightarrow>
          k < length ns \<and> deleteStep svc u' (ns ! k) wk = (Inl e, w', rest))"
proof (induction ns arbitrary: u w res u' w' evs)
  case Nil
  then show ?case by auto
next
  case (Cons n ns)
  obtain r0 w0 e0 where st: "deleteStep svc u n w = (r0, w0, e0)"
    by (metis prod_cases3)
  show ?case
  proof (cases r0)
    case (Inl err)
    with Cons.prems st have "res = Some err" "u' = u" "w' = w0" "evs = e0"
      unfolding DeleteNodes_Cons by simp_all
    with st Inl have "0 \<le> length (n # ns) \<and>
       DeleteNodes svc u (take 0 (n # ns)) w = (None, u', w, []) \<and> evs = [] @ e0 \<and>
       (res = None \<longrightarrow> 0 = length (n # ns) \<and> e0 = [] \<and> w' = w) \<and>
       (\<forall>e. res = Some e \<longrightarrow>
          0 < length (n # ns) \<and> deleteStep svc u' ((n # ns) ! 0) w = (Inl e, w', e0))"
      by simp
    then show ?thesis by blast
  next
    case (Inr g)
    obtain r2 u2 w2 e2 where
      rest: "DeleteNodes svc (u\<lparr>size_ng := Count g\<rparr>) ns w0 = (r2, u2, w2, e2)"
      by (metis prod_cases4)
    from Cons.prems st Inr rest have eq: "res = r2" "u' = u2" "w' = w2" "evs = e0 @ e2"
      unfolding DeleteNodes_Cons by simp_all
    from Cons.IH [OF rest] obtain k wk evk rs where
      k: "k \<le> length ns"
        "DeleteNodes svc (u\<lparr>size_ng := Count g\<rparr>) (take k ns) w0 = (None, u2, wk, evk)"
        "e2 = evk @ rs"
        "r2 = None \<longrightarrow> k = length ns \<and> rs = [] \<and> w2 = wk"
        "\<forall>e. r2 = Some e \<longrightarrow> k < length ns \<and> deleteStep svc u2 (ns ! k) wk = (Inl e, w2, rs)"
      by blast
    have run: "DeleteNodes svc u (take (Suc k) (n # ns)) w = (None, u', wk, e0 @ evk)"
      using st Inr k(2) eq(2) unfolding take_Suc_Cons DeleteNodes_Cons by simp
    have "Suc k \<le> length (n # ns) \<and>
       DeleteNodes svc u (take (Suc k) (n # ns)) w = (None, u', wk, e0 @ evk) \<and>
       evs = (e0 @ evk) @ rs \<and>
       (res = None \<longrightarrow> Suc k = length (n # ns) \<and> rs = [] \<and> w' = wk) \<and>
       (\<forall>e. res = Some e \<longrightarrow>
          Suc k < length (n # ns) \<and> deleteStep svc u' ((n # ns) ! Suc k) wk = (Inl e, w', rs))"
      using k run eq by simp
    then show ?thesis by blast
  qed
qed

lemma DeleteNodes_prefix:
  assumes "DeleteNodes svc u (take k ns) w = (None, uk, wk, evk)" and "j \<le> k"
  shows "\<exists>uj wj evj r. DeleteNodes svc u (take j ns) w = (None, uj, wj, evj) \<and> evk = evj @ r"
proof -
  have split: "take k ns = take j ns @ drop j (take k ns)"
    using assms(2) by (metis append_take_drop_id min.absorb1 take_take)
  obtain rj uj wj evj where j: "DeleteNodes svc u (take j ns) w = (rj, uj, wj, evj)"
    by (metis prod_cases4)
  obtain r2 u2 w2 e2 where d: "DeleteNodes svc uj (drop j (take k ns)) wj = (r2, u2, w2, e2)"
    by (metis prod_cases4)
  have whole: "DeleteNodes svc u (take j ns @ drop j (take k ns)) w = (None, uk, wk, evk)"
    using assms(1) split by simp
  show ?thesis
  proof (cases rj)
    case (Some e)
    with whole j show ?thesis unfolding DeleteNodes_append by simp
  next
    case None
    with whole j d have "evk = evj @ e2" unfolding DeleteNodes_append by simp
    with j None show ?thesis by blast
  qed
qed


lemma oneAtATime_misses:
  "list_all (isMiss KubernetesNodeGroupStateRunning) pre \<Longrightarrow>
     oneAtATime nms True (pre @ evs) = oneAtATime nms True evs"
proof (induction pre)
  case Nil
  show ?case by simp
next
  case (Cons ev pre)
  from Cons.prems have "isMiss KubernetesNodeGroupStateRunning ev"
    by simp
  then obtain c n g where "ev = EvGetGroup c n (Inr g)" "State g \<noteq> KubernetesNodeGroupStateRunning"
    by (cases "(KubernetesNodeGroupStateRunning, ev)" rule: isMiss.cases) auto
  with Cons show ?case by simp
qed

lemma oneAtATime_append:
  "oneAtATime xs b e1 \<Longrightarrow> oneAtATime ys False e2 \<Longrightarrow> oneAtATime (xs @ ys) b (e1 @ e2)"
  by (induction xs b e1 rule: oneAtATime.induct) (auto split: if_splits)

lemma deleteStep_oneAtATime:
  assumes "deleteStep svc u n w = (Inr g, w', evs)"
  shows "oneAtATime [GetName n] False evs"
proof -
  obtain rd wd evd where d: "deleteNode svc u (GetName n) w = (rd, wd, evd)"
    by (cases "deleteNode svc u (GetName n) w") auto
  from assms d have none: "rd = None"
    by (cases rd) (auto simp: deleteStep_def)
  obtain rw ww evw where wt: "waitNodeGroupState svc u KubernetesNodeGroupStateRunning
      timeoutWaitNodeGroupState wd = (rw, ww, evw)"
    by (cases "waitNodeGroupState svc u KubernetesNodeGroupStateRunning
      timeoutWaitNodeGroupState wd") auto
  from assms d none wt have eq: "rw = Inr g" "evs = evd @ evw"
    by (simp_all add: deleteStep_def)
  from waitNodeGroupState_success [OF wt [unfolded eq(1)]] obtain pre where
    pre: "evw = pre @ [EvGetGroup (clusterID u) (name u) (Inr g)]"
      "list_all (isMiss KubernetesNodeGroupStateRunning) pre"
      "State g = KubernetesNodeGroupStateRunning"
    by blast
  have "oneAtATime [] True (pre @ [EvGetGroup (clusterID u) (name u) (Inr g)])"
    using pre(2,3) by (simp add: oneAtATime_misses)
  then show ?thesis
    using deleteNode_events [OF d] none eq(2) pre(1) by simp
qed

lemma DeleteNodes_oneAtATime:
  "DeleteNodes svc u xs w = (None, u1, w1, ev1) \<Longrightarrow> oneAtATime (map GetName xs) False ev1"
proof (induction xs arbitrary: u w u1 w1 ev1)
  case Nil
  then show ?case by simp
next
  case (Cons x xs)
  obtain r0 w0 e0 where st: "deleteStep svc u x w = (r0, w0, e0)"
    by (cases "deleteStep svc u x w") auto
  from Cons.prems st obtain g0 where g0: "r0 = Inr g0"
    unfolding DeleteNodes_Cons by (cases r0) auto
  obtain r2 u2 w2 e2 where
    rest: "DeleteNodes svc (u\<lparr>size_ng := Count g0\<rparr>) xs w0 = (r2, u2, w2, e2)"
    by (cases "DeleteNodes svc (u\<lparr>size_ng := Count g0\<rparr>) xs w0") auto
  from Cons.prems st g0 rest have eq: "r2 = None" "ev1 = e0 @ e2"
    unfolding DeleteNodes_Cons by simp_all
  have "oneAtATime ([GetName x] @ map GetName xs) False (e0 @ e2)"
    using deleteStep_oneAtATime [OF st [unfolded g0]] Cons.IH [OF rest [unfolded eq(1)]]
    by (rule oneAtATime_append)
  then show ?case using eq(2) by simp
qed

text \<open>
  C1. A run of \<open>DeleteNodes\<close> on a non-empty sequence of nodes completes some
  number \<open>k\<close> of them, in input order, and then either is done (\<open>k\<close> is the
  number of nodes and the result is no error) or fails at the next node. For
  every \<open>j \<le> k\<close>, the effects begin with those of a successful run on the first
  \<open>j\<close> nodes: for each of these nodes in turn one delete and then reads of the
  group until one observes \<open>Running\<close>, and nothing else; for \<open>j > 0\<close> the count of
  the last read is the cached size at that point. On failure, the error is that of the delete or
  the wait of node \<open>k + 1\<close>, the effects after the first \<open>k\<close> nodes are those of
  this one step (one delete request, for that node, and nothing for a later
  node or to undo an earlier one), and the controller returned is the one
  after the \<open>k\<close>-th convergence (the initial one for \<open>k = 0\<close>).
\<close>

theorem DeleteNodes_in_input_order:
  assumes "DeleteNodes svc u ns w = (res, u', w', evs)" and "ns \<noteq> []"
  shows "\<exists>k\<le>length ns.
     (\<forall>j\<le>k. \<exists>uj wj evj rest.
         DeleteNodes svc u (take j ns) w = (None, uj, wj, evj) \<and> evs = evj @ rest \<and>
         deleteRequests evj = map GetName (take j ns) \<and>
         oneAtATime (map GetName (take j ns)) False evj \<and>
         (j = 0 \<longrightarrow> uj = u) \<and>
         (0 < j \<longrightarrow>
            (\<exists>pre g. evj = pre @ [EvGetGroup (clusterID u) (name u) (Inr g)] \<and>
                     State g = KubernetesNodeGroupStateRunning \<and>
                     uj = u\<lparr>size_ng := Count g\<rparr>)) \<and>
         (j = k \<longrightarrow> u' = uj \<and>
            (res = None \<longrightarrow> rest = [] \<and> w' = wj) \<and>
            (\<forall>e. res = Some e \<longrightarrow>
               deleteStep svc uj (ns ! k) wj = (Inl e, w', rest) \<and>
               deleteRequests rest = [GetName (ns ! k)]))) \<and>
     (res = None \<longrightarrow> k = length ns) \<and> (res \<noteq> None \<longrightarrow> k < length ns)"
proof -
  from DeleteNodes_stop [OF assms(1)] obtain k wk evk rest where
    k: "k \<le> length ns"
      "DeleteNodes svc u (take k ns) w = (None, u', wk, evk)"
      "evs = evk @ rest"
      "res = None \<longrightarrow> k = length ns \<and> rest = [] \<and> w' = wk"
      "\<forall>e. res = Some e \<longrightarrow> k < length ns \<and> deleteStep svc u' (ns ! k) wk = (Inl e, w', rest)"
    by blast
  have each: "\<exists>uj wj evj rest'.
         DeleteNodes svc u (take j ns) w = (None, uj, wj, evj) \<and> evs = evj @ rest' \<and>
         deleteRequests evj = map GetName (take j ns) \<and>
         oneAtATime (map GetName (take j ns)) False evj \<and>
         (j = 0 \<longrightarrow> uj = u) \<and>
         (0 < j \<longrightarrow>
            (\<exists>pre g. evj = pre @ [EvGetGroup (clusterID u) (name u) (Inr g)] \<and>
                     State g = KubernetesNodeGroupStateRunning \<and>
                     uj = u\<lparr>size_ng := Count g\<rparr>)) \<and>
         (j = k \<longrightarrow> u' = uj \<and>
            (res = None \<longrightarrow> rest' = [] \<and> w' = wj) \<and>
            (\<forall>e. res = Some e \<longrightarrow>
               deleteStep svc uj (ns ! k) wj = (Inl e, w', rest') \<and>
               deleteRequests rest' = [GetName (ns ! k)]))" if "j \<le> k" for j
  proof -
    from DeleteNodes_prefix [OF k(2) that] obtain uj wj evj r where
      j: "DeleteNodes svc u (take j ns) w = (None, uj, wj, evj)" "evk = evj @ r"
      by blast
    note s = DeleteNodes_success [OF j(1)]
    have nonempty: "take j ns \<noteq> []" if "0 < j"
      using that assms(2) by (cases ns) auto
    have a: "evs = evj @ (r @ rest)"
      using k(3) j(2) by simp
    have b: "deleteRequests evj = map GetName (take j ns)"
      using s by simp
    have b2: "oneAtATime (map GetName (take j ns)) False evj"
      using j(1) by (rule DeleteNodes_oneAtATime)
    have c: "j = 0 \<longrightarrow> uj = u"
      using s by simp
    have d: "0 < j \<longrightarrow>
            (\<exists>pre g. evj = pre @ [EvGetGroup (clusterID u) (name u) (Inr g)] \<and>
                     State g = KubernetesNodeGroupStateRunning \<and>
                     uj = u\<lparr>size_ng := Count g\<rparr>)"
      using s nonempty by blast
    have e: "u' = uj \<and>
            (res = None \<longrightarrow> r @ rest = [] \<and> w' = wj) \<and>
            (\<forall>e. res = Some e \<longrightarrow>
               deleteStep svc uj (ns ! k) wj = (Inl e, w', r @ rest) \<and>
               deleteRequests (r @ rest) = [GetName (ns ! k)])" if "j = k"
    proof -
      from that j(1) k(2) have same: "uj = u'" "wj = wk" "evj = evk"
        by simp_all
      with j(2) have "r = []" by simp
      with same k(4,5) deleteStep_events show ?thesis
        by fastforce
    qed
    show ?thesis
      using j(1) a b b2 c d e by blast
  qed
  have "res \<noteq> None \<longrightarrow> k < length ns"
    using k(5) by auto
  with each k(1,4) show ?thesis
    by blast
qed


lemma failing_run:
  "DeleteNodes scripted (group1 3) threeNodes (script failingDeletes) =
   (Some down, group1 2, afterFailure, failingEvents)"
  by (simp add: failingDeletes_def threeNodes_def failingEvents_def afterFailure_def
      deleteNode_def node_def timeoutDeleteNode_def run_defs)

theorem DeleteNodes_in_input_order_witness:
  "threeNodes \<noteq> [] \<and>
   DeleteNodes scripted (group1 3) threeNodes (script failingDeletes) =
     (Some down, group1 2, afterFailure, failingEvents) \<and>
   deleteRequests failingEvents = [''n1'', ''n2''] \<and>
   (\<exists>k<3. \<forall>j\<le>k. \<exists>uj wj evj rest.
      DeleteNodes scripted (group1 3) (take j threeNodes) (script failingDeletes) =
        (None, uj, wj, evj) \<and>
      failingEvents = evj @ rest \<and> (j = k \<longrightarrow> group1 2 = uj))"
proof -
  have ne: "threeNodes \<noteq> []"
    by (simp add: threeNodes_def)
  have len: "length threeNodes = 3"
    by (simp add: threeNodes_def)
  note inst = DeleteNodes_in_input_order [OF failing_run ne]
  from inst obtain k where
    k: "k \<le> length threeNodes"
    and each: "\<forall>j\<le>k. \<exists>uj wj evj rest.
         DeleteNodes scripted (group1 3) (take j threeNodes) (script failingDeletes) =
           (None, uj, wj, evj) \<and> failingEvents = evj @ rest \<and>
         deleteRequests evj = map GetName (take j threeNodes) \<and>
         oneAtATime (map GetName (take j threeNodes)) False evj \<and>
         (j = 0 \<longrightarrow> uj = group1 3) \<and>
         (0 < j \<longrightarrow>
            (\<exists>pre g. evj = pre @ [EvGetGroup (clusterID (group1 3)) (name (group1 3)) (Inr g)] \<and>
                     State g = KubernetesNodeGroupStateRunning \<and>
                     uj = (group1 3)\<lparr>size_ng := Count g\<rparr>)) \<and>
         (j = k \<longrightarrow> group1 2 = uj \<and>
            (Some down = None \<longrightarrow> rest = [] \<and> afterFailure = wj) \<and>
            (\<forall>e. Some down = Some e \<longrightarrow>
               deleteStep scripted uj (threeNodes ! k) wj = (Inl e, afterFailure, rest) \<and>
               deleteRequests rest = [GetName (threeNodes ! k)]))"
    and stop: "Some down \<noteq> None \<longrightarrow> k < length threeNodes"
    by (elim exE conjE)
  have "k < 3"
    using stop len by simp
  moreover have "\<exists>uj wj evj rest.
      DeleteNodes scripted (group1 3) (take j threeNodes) (script failingDeletes) =
        (None, uj, wj, evj) \<and>
      failingEvents = evj @ rest \<and> (j = k \<longrightarrow> group1 2 = uj)" if "j \<le> k" for j
    using each [rule_format, OF that] by (elim exE conjE) (intro exI conjI, assumption, assumption, simp)
  moreover have "deleteRequests failingEvents = [''n1'', ''n2'']"
    by (simp add: failingEvents_def)
  ultimately show ?thesis
    using ne failing_run by (intro conjI exI [of _ k]) simp_all
qed

subsection \<open>The size invariant\<close>

lemma runningCounts_append: "runningCounts (xs @ ys) = runningCounts xs @ runningCounts ys"
  by (simp add: runningCounts_def List.map_filter_def)

lemma runningCounts_last_read:
  assumes "evs = pre @ [EvGetGroup c n (Inr g)]" and "State g = KubernetesNodeGroupStateRunning"
  shows "runningCounts evs \<noteq> [] \<and> last (runningCounts evs) = Count g"
  using assms by (simp add: runningCounts_append) (simp add: runningCounts_def List.map_filter_def)

lemma DeleteNodes_cached_size:
  assumes "DeleteNodes svc u ns w = (None, u', w', evs)"
  shows "u' = u\<lparr>size_ng := (if runningCounts evs = [] then size_ng u else last (runningCounts evs))\<rparr>"
proof (cases "ns = []")
  case True
  with assms show ?thesis by (simp add: runningCounts_def List.map_filter_def)
next
  case False
  with DeleteNodes_success [OF assms] obtain pre g where
    g: "evs = pre @ [EvGetGroup (clusterID u) (name u) (Inr g)]"
      "State g = KubernetesNodeGroupStateRunning" "u' = u\<lparr>size_ng := Count g\<rparr>"
    by blast
  from runningCounts_last_read [OF g(1,2)] g(3) show ?thesis by simp
qed

lemma scaleNodeGroup_cached_size:
  assumes "scaleNodeGroup svc u sz w = (None, u', w', evs)"
  shows "u' = u\<lparr>size_ng := (if runningCounts evs = [] then size_ng u else last (runningCounts evs))\<rparr>"
proof -
  from scaleNodeGroup_success [OF assms] obtain m g pre where
    g: "evs = EvModify (clusterID u) (name u) sz (Inr m) # pre @ [EvGetGroup (clusterID u) (name u) (Inr g)]"
      "State g = KubernetesNodeGroupStateRunning" "u' = u\<lparr>size_ng := Count g\<rparr>"
    by blast
  from g(1) have "evs = (EvModify (clusterID u) (name u) sz (Inr m) # pre) @ [EvGetGroup (clusterID u) (name u) (Inr g)]"
    by simp
  from runningCounts_last_read [OF this g(2)] g(3) show ?thesis by simp
qed

text \<open>
  C2 (as amended). For a controller whose cached state satisfies
  \<open>minSize \<le> size \<le> maxSize\<close>, after a successful \<open>IncreaseSize\<close>,
  \<open>DecreaseTargetSize\<close> or \<open>DeleteNodes\<close> the cached size is the count of the last
  read that observed \<open>Running\<close> (the size before, if there was no such read), and
  it satisfies \<open>minSize \<le> size \<le> maxSize\<close> provided that count lies within the
  bounds.
\<close>

theorem size_invariant_when_remote_count_within_bounds:
  assumes "sizeWithinBounds u"
    and "IncreaseSize svc u delta w = (None, u', w', evs) \<or>
         DecreaseTargetSize svc u delta w = (None, u', w', evs) \<or>
         DeleteNodes svc u ns w = (None, u', w', evs)"
    and "runningCounts evs \<noteq> [] \<longrightarrow>
         minSize u \<le>s last (runningCounts evs) \<and> last (runningCounts evs) \<le>s maxSize u"
  shows "sizeWithinBounds u' \<and>
         size_ng u' = (if runningCounts evs = [] then size_ng u else last (runningCounts evs))"
proof -
  have "scaleNodeGroup svc u (size_ng u + delta) w = (None, u', w', evs) \<or>
        DeleteNodes svc u ns w = (None, u', w', evs)"
    using assms(2) by (auto simp: IncreaseSize_def DecreaseTargetSize_def Let_def split: if_splits)
  then have "u' = u\<lparr>size_ng := (if runningCounts evs = [] then size_ng u else last (runningCounts evs))\<rparr>"
    using scaleNodeGroup_cached_size DeleteNodes_cached_size by blast
  then have "size_ng u' = (if runningCounts evs = [] then size_ng u else last (runningCounts evs))"
    "minSize u' = minSize u" "maxSize u' = maxSize u"
    by simp_all
  then show ?thesis
    using assms(1,3) by (simp add: sizeWithinBounds_def)
qed

text \<open>
  The count is written back as reported. \<open>IncreaseSize\<close> on a controller of size
  1 with the bounds 1 and 20 succeeds and caches 25 when the remote reports 25;
  \<open>DeleteNodes\<close> of one node on the same controller succeeds and caches 0.
\<close>

theorem size_invariant_counterexample:
  "sizeWithinBounds (group1 1) \<and>
   fst (IncreaseSize scripted (group1 1) 1 (script [transient second, settled 25])) = None \<and>
   \<not> sizeWithinBounds
       (fst (snd (IncreaseSize scripted (group1 1) 1 (script [transient second, settled 25])))) \<and>
   fst (DeleteNodes scripted (group1 1) [node ''n1'']
          (script [ReplyDelete second None, settled 0])) = None \<and>
   \<not> sizeWithinBounds
       (fst (snd (DeleteNodes scripted (group1 1) [node ''n1'']
          (script [ReplyDelete second None, settled 0]))))"
  by (simp add: sizeWithinBounds_def IncreaseSize_def scaleNodeGroup_def MaxSize_def
      nodeGroupMaxSize_def nodeGroupMinSize_def timeoutModifyNodeGroup_def word_sless_alt
      word_sle_eq deleteNode_def node_def timeoutDeleteNode_def run_defs)

theorem size_invariant_when_remote_count_within_bounds_witness:
  "sizeWithinBounds (group1 1) \<and>
   IncreaseSize scripted (group1 1) 1 (script [transient second, transient second, settled 2]) =
     (None, group1 2, \<lparr>clock = 6 * second, remote = []\<rparr>,
      [EvModify ''cluster'' ''group1'' 2 (Inr (groupIs 3 ''scaling-up'')),
       EvGetGroup ''cluster'' ''group1'' (Inr (groupIs 3 ''scaling-up'')),
       EvGetGroup ''cluster'' ''group1'' (Inr (groupIs 2 ''running''))]) \<and>
   sizeWithinBounds (group1 2)"
proof -
  have inv: "sizeWithinBounds (group1 1)"
    by (simp add: sizeWithinBounds_def group1_def nodeGroupMinSize_def nodeGroupMaxSize_def
        word_sle_eq)
  have rc: "runningCounts
      [EvModify ''cluster'' ''group1'' 2 (Inr (groupIs 3 ''scaling-up'')),
       EvGetGroup ''cluster'' ''group1'' (Inr (groupIs 3 ''scaling-up'')),
       EvGetGroup ''cluster'' ''group1'' (Inr (groupIs 2 ''running''))] = [2]"
    by (simp add: runningCounts_def List.map_filter_def groupIs_def
        KubernetesNodeGroupStateRunning_def)
  have bounds: "minSize (group1 1) \<le>s 2 \<and> 2 \<le>s maxSize (group1 1)"
    by (simp add: group1_def nodeGroupMinSize_def nodeGroupMaxSize_def word_sle_eq)
  show ?thesis
    using size_invariant_when_remote_count_within_bounds [OF inv disjI1, OF increase_run]
      inv increase_run rc bounds
    by simp
qed

subsection \<open>Refresh when the listing succeeds\<close>

lemma detailResults_append: "detailResults (xs @ ys) = detailResults xs @ detailResults ys"
  by (induction xs rule: detailResults.induct) auto

lemma failedDetails_append: "failedDetails (xs @ ys) = failedDetails xs @ failedDetails ys"
  by (induction xs rule: failedDetails.induct) auto

lemma loggedErrors_append: "loggedErrors (xs @ ys) = loggedErrors xs @ loggedErrors ys"
  by (induction xs rule: loggedErrors.induct) auto

lemma nodeGroupNodes_result:
  "nodeGroupNodes svc cid nm w = ((ns, err), w', evs) \<Longrightarrow>
     \<exists>res. evs = [EvGetDetails cid nm res] \<and>
       (case res of
          Inl e \<Rightarrow> err = Some e \<and> ns = []
        | Inr ng \<Rightarrow> err = None \<and>
            ns = map (\<lambda>node. \<lparr>Id_inst = ''upcloud:////'' @ UUID node,
                               Status = Some (nodeStateToInstanceStatus (State_node node))\<rparr>)
                   (Nodes ng))"
  by (auto simp: nodeGroupNodes_def split: prod.splits sum.splits)

lemma refreshLoop_result:
  "refreshLoop svc m acc gs w = (groups', w', evs) \<Longrightarrow>
     map fst (detailResults evs) = map Name gs \<and>
     groups' = acc @ expectedGroups (clusterID_m m) gs (map snd (detailResults evs)) \<and>
     loggedErrors evs = failedDetails evs"
proof (induction gs arbitrary: acc w groups' w' evs)
  case Nil
  then show ?case by simp
next
  case (Cons g gs)
  obtain ns err w1 evs1 where
    f: "nodeGroupNodes svc (clusterID_m m) (Name g) w = ((ns, err), w1, evs1)"
    by (cases "nodeGroupNodes svc (clusterID_m m) (Name g) w") auto
  from nodeGroupNodes_result [OF f] obtain res where
    res: "evs1 = [EvGetDetails (clusterID_m m) (Name g) res]"
      "case res of
          Inl e \<Rightarrow> err = Some e \<and> ns = []
        | Inr ng \<Rightarrow> err = None \<and>
            ns = map (\<lambda>node. \<lparr>Id_inst = ''upcloud:////'' @ UUID node,
                               Status = Some (nodeStateToInstanceStatus (State_node node))\<rparr>)
                   (Nodes ng)"
    by blast
  show ?case
  proof (cases res)
    case (Inl e)
    obtain g2 w2 evs2 where rec: "refreshLoop svc m acc gs w1 = (g2, w2, evs2)"
      by (metis prod_cases3)
    from Cons.prems f res Inl rec have eq: "groups' = g2" "w' = w2"
      "evs = evs1 @ EvLogError e # evs2"
      by simp_all
    from Cons.IH [OF rec] eq res(1) Inl show ?thesis
      by (simp add: detailResults_append loggedErrors_append failedDetails_append)
  next
    case (Inr ng)
    obtain g2 w2 evs2 where rec: "refreshLoop svc m
        (acc @ [\<lparr>clusterID = clusterID_m m, name = Name g, size_ng = Count g,
                  minSize = nodeGroupMinSize, maxSize = nodeGroupMaxSize, nodes = ns\<rparr>])
        gs w1 = (g2, w2, evs2)"
      by (metis prod_cases3)
    from Cons.prems f res Inr rec have eq: "groups' = g2" "w' = w2" "evs = evs1 @ evs2"
      by simp_all
    from Cons.IH [OF rec] eq res Inr show ?thesis
      by (simp add: detailResults_append loggedErrors_append failedDetails_append)
  qed
qed

lemma refreshLoop_old_collection:
  "refreshLoop svc (m\<lparr>nodeGroups := old\<rparr>) acc gs w = refreshLoop svc m acc gs w"
  by (induction gs arbitrary: acc w) (simp_all split: prod.splits option.splits)

lemma expectedGroups_bounds:
  "c \<in> set (expectedGroups cid gs rs) \<Longrightarrow>
     clusterID c = cid \<and> minSize c = nodeGroupMinSize \<and> maxSize c = nodeGroupMaxSize"
  by (induction cid gs rs rule: expectedGroups.induct) auto

text \<open>
  C6. When the listing of the groups succeeds, \<open>Refresh\<close> returns no error and
  the listing is followed by one request for the nodes of every listed group,
  in order, whether or not an earlier request failed. The new collection is
  the one expected from these results: a controller for every group whose
  request succeeded, with the instances just fetched and the default bounds,
  and none for a group whose request failed; every failure is logged. The new
  collection does not depend on the old one: whatever collection the manager
  held before, the refresh leaves the same one.
\<close>

theorem Refresh_replaces_collection:
  assumes "fst (GetKubernetesNodeGroups svc timeoutGetRequest (clusterID_m m) (remote w)) = Inr gs"
    and "Refresh svc m w = (res, m', w', evs)"
  shows "res = None \<and> clusterID_m m' = clusterID_m m \<and>
     (\<exists>rest. evs = EvGetGroups (clusterID_m m) (Inr gs) # rest \<and>
        map fst (detailResults rest) = map Name gs \<and>
        nodeGroups m' = expectedGroups (clusterID_m m) gs (map snd (detailResults rest)) \<and>
        loggedErrors rest = failedDetails rest) \<and>
     (\<forall>c\<in>set (nodeGroups m').
        minSize c = nodeGroupMinSize \<and> maxSize c = nodeGroupMaxSize) \<and>
     (\<forall>old. nodeGroups (fst (snd (Refresh svc (m\<lparr>nodeGroups := old\<rparr>) w))) = nodeGroups m')"
proof -
  obtain d r where
    lst: "GetKubernetesNodeGroups svc timeoutGetRequest (clusterID_m m) (remote w) = (Inr gs, d, r)"
    using assms(1)
    by (cases "GetKubernetesNodeGroups svc timeoutGetRequest (clusterID_m m) (remote w)") auto
  obtain groups' w2 rest where
    loop: "refreshLoop svc m [] gs (elapse d r w) = (groups', w2, rest)"
    by (cases "refreshLoop svc m [] gs (elapse d r w)") auto
  from assms(2) lst loop have eq: "res = None" "m' = m\<lparr>nodeGroups := groups'\<rparr>"
    "evs = EvGetGroups (clusterID_m m) (Inr gs) # rest"
    by (simp_all add: Refresh_def)
  note lp = refreshLoop_result [OF loop]
  have grp: "nodeGroups m' = expectedGroups (clusterID_m m) gs (map snd (detailResults rest))"
    using lp eq(2) by simp
  have fresh: "\<forall>c\<in>set (nodeGroups m').
        minSize c = nodeGroupMinSize \<and> maxSize c = nodeGroupMaxSize"
    unfolding grp using expectedGroups_bounds by blast
  have indep: "nodeGroups (fst (snd (Refresh svc (m\<lparr>nodeGroups := old\<rparr>) w))) = nodeGroups m'"
    for old
    using lst loop eq(2) by (simp add: Refresh_def refreshLoop_old_collection)
  have "\<exists>rest. evs = EvGetGroups (clusterID_m m) (Inr gs) # rest \<and>
        map fst (detailResults rest) = map Name gs \<and>
        nodeGroups m' = expectedGroups (clusterID_m m) gs (map snd (detailResults rest)) \<and>
        loggedErrors rest = failedDetails rest"
    using eq(3) lp grp by blast
  then show ?thesis
    using eq(1,2) fresh indep by simp
qed

lemma refresh_listing:
  "fst (GetKubernetesNodeGroups scripted timeoutGetRequest (clusterID_m oldManager)
          (remote (script refreshScript))) = Inr listedGroups"
  by (simp add: scripted_def script_def refreshScript_def)

lemma refresh_run:
  "Refresh scripted oldManager (script refreshScript) =
     (None, oldManager\<lparr>nodeGroups := refreshedGroups\<rparr>, \<lparr>clock = 4 * second, remote = []\<rparr>,
      refreshEvents)"
  by (simp add: Refresh_def nodeGroupNodes_def scripted_def script_def refreshScript_def
      listedGroups_def details1_def details3_def refreshedGroups_def refreshEvents_def
      oldManager_def group1_def elapse_def second_def nodeStateToInstanceStatus_def
      KubernetesNodeStateRunning_def KubernetesNodeStateTerminating_def
      KubernetesNodeStatePending_def)

theorem Refresh_replaces_collection_witness:
  "fst (GetKubernetesNodeGroups scripted timeoutGetRequest (clusterID_m oldManager)
          (remote (script refreshScript))) = Inr listedGroups \<and>
   Refresh scripted oldManager (script refreshScript) =
     (None, oldManager\<lparr>nodeGroups := refreshedGroups\<rparr>, \<lparr>clock = 4 * second, remote = []\<rparr>,
      refreshEvents) \<and>
   map name refreshedGroups = [''group1'', ''group3''] \<and>
   loggedErrors refreshEvents = [down] \<and>
   list_all (\<lambda>c. minSize c = nodeGroupMinSize \<and> maxSize c = nodeGroupMaxSize)
     refreshedGroups \<and>
   nodeGroups (fst (snd (Refresh scripted (oldManager\<lparr>nodeGroups := []\<rparr>)
      (script refreshScript)))) = refreshedGroups"
proof -
  note inst = Refresh_replaces_collection [OF refresh_listing refresh_run]
  have bounds: "list_all (\<lambda>c. minSize c = nodeGroupMinSize \<and> maxSize c = nodeGroupMaxSize)
      refreshedGroups"
    using inst by (simp add: list_all_iff)
  have indep: "nodeGroups (fst (snd (Refresh scripted (oldManager\<lparr>nodeGroups := []\<rparr>)
      (script refreshScript)))) = refreshedGroups"
    using inst by simp
  have names: "map name refreshedGroups = [''group1'', ''group3'']"
    by (simp add: refreshedGroups_def group1_def)
  have logged: "loggedErrors refreshEvents = [down]"
    by (simp add: refreshEvents_def)
  show ?thesis
    using refresh_listing refresh_run bounds indep names logged by simp
qed

end
